theory Spec2Isabelle
  imports Complex_Main
begin

section \<open>Floating-point values\<close>

text \<open>
  The analyzer works on pandas columns of 64-bit floats. A value is modelled as a finite
  real number, one of the two infinities, or NaN (pandas' marker for "undefined").
  Arithmetic on finite values is the exact arithmetic of the reals: rounding, overflow
  and the sign of zero are not modelled. Division by zero and every operation with an
  infinity or NaN follow IEEE 754, as numpy does (a warning, never an exception).
\<close>

datatype pyfloat = Fin real | PInf | NInf | NaN

fun fneg :: "pyfloat \<Rightarrow> pyfloat" where
  "fneg (Fin a) = Fin (- a)"
| "fneg PInf = NInf"
| "fneg NInf = PInf"
| "fneg NaN = NaN"

fun fadd :: "pyfloat \<Rightarrow> pyfloat \<Rightarrow> pyfloat" where
  "fadd NaN _ = NaN"
| "fadd _ NaN = NaN"
| "fadd (Fin a) (Fin b) = Fin (a + b)"
| "fadd (Fin a) PInf = PInf"
| "fadd (Fin a) NInf = NInf"
| "fadd PInf NInf = NaN"
| "fadd PInf _ = PInf"
| "fadd NInf PInf = NaN"
| "fadd NInf _ = NInf"

definition fsub :: "pyfloat \<Rightarrow> pyfloat \<Rightarrow> pyfloat" where
  "fsub x y = fadd x (fneg y)"

fun fmul :: "pyfloat \<Rightarrow> pyfloat \<Rightarrow> pyfloat" where
  "fmul NaN _ = NaN"
| "fmul _ NaN = NaN"
| "fmul (Fin a) (Fin b) = Fin (a * b)"
| "fmul (Fin a) PInf = (if a = 0 then NaN else if 0 < a then PInf else NInf)"
| "fmul (Fin a) NInf = (if a = 0 then NaN else if 0 < a then NInf else PInf)"
| "fmul PInf (Fin b) = (if b = 0 then NaN else if 0 < b then PInf else NInf)"
| "fmul NInf (Fin b) = (if b = 0 then NaN else if 0 < b then NInf else PInf)"
| "fmul PInf PInf = PInf"
| "fmul PInf NInf = NInf"
| "fmul NInf PInf = NInf"
| "fmul NInf NInf = PInf"

fun fdiv :: "pyfloat \<Rightarrow> pyfloat \<Rightarrow> pyfloat" where
  "fdiv NaN _ = NaN"
| "fdiv _ NaN = NaN"
| "fdiv (Fin a) (Fin b) =
     (if b \<noteq> 0 then Fin (a / b)
      else if 0 < a then PInf else if a < 0 then NInf else NaN)"
| "fdiv (Fin a) PInf = Fin 0"
| "fdiv (Fin a) NInf = Fin 0"
| "fdiv PInf (Fin b) = (if 0 \<le> b then PInf else NInf)"
| "fdiv NInf (Fin b) = (if 0 \<le> b then NInf else PInf)"
| "fdiv PInf _ = NaN"
| "fdiv NInf _ = NaN"

text \<open>Comparisons: every comparison with NaN is false.\<close>

fun flt :: "pyfloat \<Rightarrow> pyfloat \<Rightarrow> bool" where
  "flt NaN _ = False"
| "flt _ NaN = False"
| "flt (Fin a) (Fin b) = (a < b)"
| "flt (Fin a) PInf = True"
| "flt (Fin a) NInf = False"
| "flt PInf _ = False"
| "flt NInf NInf = False"
| "flt NInf _ = True"

fun feq :: "pyfloat \<Rightarrow> pyfloat \<Rightarrow> bool" where
  "feq NaN _ = False"
| "feq _ NaN = False"
| "feq x y = (x = y)"

definition fgt :: "pyfloat \<Rightarrow> pyfloat \<Rightarrow> bool" where
  "fgt x y = flt y x"

definition fle :: "pyfloat \<Rightarrow> pyfloat \<Rightarrow> bool" where
  "fle x y = (flt x y \<or> feq x y)"

definition fge :: "pyfloat \<Rightarrow> pyfloat \<Rightarrow> bool" where
  "fge x y = fle y x"

section \<open>Errors, indexing, the data frame\<close>

datatype py_error = IndexError | KeyError | ValueError

definition bind_err :: "py_error + 'a \<Rightarrow> ('a \<Rightarrow> py_error + 'b) \<Rightarrow> py_error + 'b" where
  "bind_err m f = (case m of Inl e \<Rightarrow> Inl e | Inr x \<Rightarrow> f x)"

text \<open>
  \<open>series.iloc[i]\<close>: a negative position counts from the end; a position outside the
  series raises IndexError.
\<close>

definition iloc :: "'a list \<Rightarrow> int \<Rightarrow> py_error + 'a" where
  "iloc xs i =
     (if 0 \<le> i \<and> i < int (length xs) then Inr (xs ! nat i)
      else if i < 0 \<and> - i \<le> int (length xs) then Inr (xs ! nat (int (length xs) + i))
      else Inl IndexError)"

text \<open>\<open>frame[name]\<close>: a column that was never computed raises KeyError.\<close>

definition column :: "'a option \<Rightarrow> py_error + 'a" where
  "column c = (case c of None \<Rightarrow> Inl KeyError | Some xs \<Rightarrow> Inr xs)"

text \<open>
  One row of the OHLCV table as \<open>fetch_ohlcv\<close> builds it. The prices and the volume are
  finite numbers. The field \<open>open_price\<close> is the column \<open>open\<close>.
\<close>

record candle =
  timestamp :: nat
  open_price :: real
  high :: real
  low :: real
  close :: real
  volume :: real

text \<open>
  \<open>self.data\<close>: the candles, oldest first, and the derived columns, each absent until the
  method that computes it has run.
\<close>

record frame =
  candles :: "candle list"
  rsi :: "pyfloat list option"
  macd :: "pyfloat list option"
  macd_signal :: "pyfloat list option"
  macd_histogram :: "pyfloat list option"
  bb_upper :: "pyfloat list option"
  bb_middle :: "pyfloat list option"
  bb_lower :: "pyfloat list option"

record analyzer =
  symbol :: string
  timeframe :: string
  data :: "frame option"

definition closes :: "frame \<Rightarrow> real list" where
  "closes df = map close (candles df)"

definition highs :: "frame \<Rightarrow> real list" where
  "highs df = map high (candles df)"

definition lows :: "frame \<Rightarrow> real list" where
  "lows df = map low (candles df)"

section \<open>detect_divergence\<close>

text \<open>
  The method returns \<open>None\<close> without a table or without an \<open>rsi\<close> column. Otherwise it
  reads the close and the RSI at the positions -1 and -20; each read raises IndexError
  when the column is too short. The flags are Python's \<open>and\<close> of two comparisons.
\<close>

record divergence =
  bullish :: bool
  bearish :: bool

definition detect_divergence :: "analyzer \<Rightarrow> py_error + divergence option" where
  "detect_divergence a =
     (case data a of
        None \<Rightarrow> Inr None
      | Some df \<Rightarrow>
          (case rsi df of
             None \<Rightarrow> Inr None
           | Some rs \<Rightarrow>
               bind_err (iloc (closes df) (- 1)) (\<lambda>c1.
               bind_err (iloc (closes df) (- 20)) (\<lambda>c20.
               bind_err (iloc rs (- 1)) (\<lambda>r1.
               bind_err (iloc rs (- 20)) (\<lambda>r20.
                 Inr (Some \<lparr>bullish = (c1 < c20 \<and> fgt r1 r20),
                            bearish = (c1 > c20 \<and> flt r1 r20)\<rparr>)))))))"

section \<open>generate_signal\<close>

text \<open>
  The five actions stand for the strings \<open>STRONG BUY\<close>, \<open>BUY\<close>, \<open>STRONG SELL\<close>, \<open>SELL\<close>
  and \<open>HOLD\<close> (each followed by a coloured mark in the source); the reasons stand for the
  eight messages appended to \<open>signals\<close>.
\<close>

datatype action = StrongBuy | Buy | StrongSell | Sell | Hold

datatype reason =
    RSI_oversold | RSI_overbought
  | MACD_bullish_crossover | MACD_bearish_crossover
  | Price_below_lower_band | Price_above_upper_band
  | Bullish_divergence | Bearish_divergence

record signal =
  action :: action
  confidence :: int
  signals :: "reason list"

text \<open>
  The running state of \<open>generate_signal\<close> is the pair of its two local variables
  \<open>signals\<close> and \<open>confidence\<close>. Each commented block of the method is one function on it.
\<close>

type_synonym tally = "reason list \<times> int"

definition fire :: "reason \<Rightarrow> int \<Rightarrow> tally \<Rightarrow> tally" where
  "fire r c st = (fst st @ [r], snd st + c)"

definition rsi_rule :: "pyfloat \<Rightarrow> tally \<Rightarrow> tally" where
  "rsi_rule current_rsi st =
     (if flt current_rsi (Fin 30) then fire RSI_oversold 20 st
      else if fgt current_rsi (Fin 70) then fire RSI_overbought (- 20) st
      else st)"

definition macd_rule :: "frame \<Rightarrow> tally \<Rightarrow> py_error + tally" where
  "macd_rule df st =
     bind_err (column (macd df)) (\<lambda>mc.
     bind_err (iloc mc (- 1)) (\<lambda>m1.
     bind_err (column (macd_signal df)) (\<lambda>sc.
     bind_err (iloc sc (- 1)) (\<lambda>s1.
       if fgt m1 s1 then
         bind_err (iloc mc (- 2)) (\<lambda>m2.
         bind_err (iloc sc (- 2)) (\<lambda>s2.
           Inr (if fle m2 s2 then fire MACD_bullish_crossover 25 st else st)))
       else if flt m1 s1 then
         bind_err (iloc mc (- 2)) (\<lambda>m2.
         bind_err (iloc sc (- 2)) (\<lambda>s2.
           Inr (if fge m2 s2 then fire MACD_bearish_crossover (- 25) st else st)))
       else Inr st))))"

definition bollinger_rule :: "frame \<Rightarrow> real \<Rightarrow> tally \<Rightarrow> py_error + tally" where
  "bollinger_rule df current_price st =
     bind_err (column (bb_lower df)) (\<lambda>lc.
     bind_err (iloc lc (- 1)) (\<lambda>lo.
       if flt (Fin current_price) lo then Inr (fire Price_below_lower_band 15 st)
       else
         bind_err (column (bb_upper df)) (\<lambda>uc.
         bind_err (iloc uc (- 1)) (\<lambda>up.
           Inr (if fgt (Fin current_price) up
                then fire Price_above_upper_band (- 15) st else st)))))"

definition divergence_rule :: "divergence option \<Rightarrow> tally \<Rightarrow> tally" where
  "divergence_rule dv st =
     (case dv of
        None \<Rightarrow> st
      | Some d \<Rightarrow>
          if bullish d then fire Bullish_divergence 20 st
          else if bearish d then fire Bearish_divergence (- 20) st
          else st)"

text \<open>Lines 189 to 227: the four rules in order, from the empty list and 0.\<close>

definition tally_signals :: "analyzer \<Rightarrow> frame \<Rightarrow> py_error + tally" where
  "tally_signals a df =
     bind_err (column (rsi df)) (\<lambda>rc.
     bind_err (iloc rc (- 1)) (\<lambda>current_rsi.
     bind_err (macd_rule df (rsi_rule current_rsi ([], 0))) (\<lambda>st2.
     bind_err (iloc (closes df) (- 1)) (\<lambda>current_price.
     bind_err (bollinger_rule df current_price st2) (\<lambda>st3.
     bind_err (detect_divergence a) (\<lambda>dv.
       Inr (divergence_rule dv st3)))))))"

text \<open>Lines 230 to 245: the action and the reported record.\<close>

definition classify :: "int \<Rightarrow> action" where
  "classify c =
     (if c > 40 then StrongBuy
      else if c > 20 then Buy
      else if c < - 40 then StrongSell
      else if c < - 20 then Sell
      else Hold)"

definition report :: "tally \<Rightarrow> signal" where
  "report st = \<lparr>action = classify (snd st), confidence = \<bar>snd st\<bar>, signals = fst st\<rparr>"

definition generate_signal :: "analyzer \<Rightarrow> py_error + signal option" where
  "generate_signal a =
     (case data a of
        None \<Rightarrow> Inr None
      | Some df \<Rightarrow> bind_err (tally_signals a df) (\<lambda>st. Inr (Some (report st))))"

section \<open>Rolling windows and exponential averages\<close>

text \<open>
  \<open>series.rolling(window=p)\<close> with the default \<open>min_periods = p\<close>, over a series of
  finite values: the window at position \<open>i\<close> is the \<open>p\<close> values ending at \<open>i\<close>; where
  fewer than \<open>p\<close> values exist (and for \<open>p = 0\<close>, an empty window) the result is NaN.
\<close>

definition window_at :: "nat \<Rightarrow> real list \<Rightarrow> nat \<Rightarrow> real list" where
  "window_at p xs i = take p (drop (i + 1 - p) xs)"

definition mean :: "real list \<Rightarrow> real" where
  "mean w = sum_list w / real (length w)"

definition rolling_mean :: "nat \<Rightarrow> real list \<Rightarrow> pyfloat list" where
  "rolling_mean p xs =
     map (\<lambda>i. if p = 0 \<or> i + 1 < p then NaN else Fin (mean (window_at p xs i)))
       [0..<length xs]"

text \<open>
  \<open>.std()\<close> is the sample standard deviation (\<open>ddof = 1\<close>): a window of fewer than two
  values has none.
\<close>

definition sample_std :: "real list \<Rightarrow> real" where
  "sample_std w =
     sqrt (sum_list (map (\<lambda>x. (x - mean w) * (x - mean w)) w) / (real (length w) - 1))"

definition rolling_std :: "nat \<Rightarrow> real list \<Rightarrow> pyfloat list" where
  "rolling_std p xs =
     map (\<lambda>i. if p \<le> 1 \<or> i + 1 < p then NaN else Fin (sample_std (window_at p xs i)))
       [0..<length xs]"

text \<open>
  \<open>series.ewm(span=n, adjust=False).mean()\<close> over finite values: the first value is
  kept, each later one is \<open>(1 - \<alpha>) * previous + \<alpha> * x\<close> with \<open>\<alpha> = 2 / (n + 1)\<close>.
  pandas refuses a span below 1 with ValueError when the window object is built.
\<close>

fun ewm_from :: "real \<Rightarrow> real \<Rightarrow> real list \<Rightarrow> real list" where
  "ewm_from \<alpha> prev [] = []"
| "ewm_from \<alpha> prev (x # xs) =
     ((1 - \<alpha>) * prev + \<alpha> * x) # ewm_from \<alpha> ((1 - \<alpha>) * prev + \<alpha> * x) xs"

definition ewm_mean :: "nat \<Rightarrow> real list \<Rightarrow> py_error + real list" where
  "ewm_mean n xs =
     (if n < 1 then Inl ValueError
      else Inr (case xs of [] \<Rightarrow> [] | x # rest \<Rightarrow> x # ewm_from (2 / (real n + 1)) x rest))"

section \<open>calculate_rsi\<close>

text \<open>
  \<open>close.diff()\<close>: the first entry is NaN (\<open>None\<close> here), every other entry is finite.
  \<open>delta.where(delta > 0, 0)\<close> keeps an entry where the comparison is true and puts 0
  elsewhere, NaN included, since a comparison with NaN is false.
\<close>

definition diff :: "real list \<Rightarrow> real option list" where
  "diff xs = (case xs of [] \<Rightarrow> [] | _ # rest \<Rightarrow> None # map2 (\<lambda>prev cur. Some (cur - prev)) xs rest)"

definition gains :: "real option list \<Rightarrow> real list" where
  "gains delta = map (\<lambda>d. case d of None \<Rightarrow> 0 | Some x \<Rightarrow> if x > 0 then x else 0) delta"

definition losses :: "real option list \<Rightarrow> real list" where
  "losses delta = map (\<lambda>d. - (case d of None \<Rightarrow> 0 | Some x \<Rightarrow> if x < 0 then x else 0)) delta"

definition rsi_of :: "pyfloat \<Rightarrow> pyfloat \<Rightarrow> pyfloat" where
  "rsi_of gain loss = fsub (Fin 100) (fdiv (Fin 100) (fadd (Fin 1) (fdiv gain loss)))"

definition rsi_series :: "nat \<Rightarrow> real list \<Rightarrow> pyfloat list" where
  "rsi_series period cs =
     map2 rsi_of (rolling_mean period (gains (diff cs))) (rolling_mean period (losses (diff cs)))"

definition calculate_rsi :: "nat \<Rightarrow> analyzer \<Rightarrow> pyfloat list option \<times> analyzer" where
  "calculate_rsi period a =
     (case data a of
        None \<Rightarrow> (None, a)
      | Some df \<Rightarrow>
          (Some (rsi_series period (closes df)),
           a\<lparr>data := Some (df\<lparr>rsi := Some (rsi_series period (closes df))\<rparr>)\<rparr>))"

section \<open>calculate_macd\<close>

definition calculate_macd ::
  "nat \<Rightarrow> nat \<Rightarrow> nat \<Rightarrow> analyzer \<Rightarrow>
     py_error + (pyfloat list \<times> pyfloat list \<times> pyfloat list) option \<times> analyzer" where
  "calculate_macd fast slow signal a =
     (case data a of
        None \<Rightarrow> Inr (None, a)
      | Some df \<Rightarrow>
          bind_err (ewm_mean fast (closes df)) (\<lambda>exp1.
          bind_err (ewm_mean slow (closes df)) (\<lambda>exp2.
          bind_err (ewm_mean signal (map2 (-) exp1 exp2)) (\<lambda>signal_line.
            Inr (Some (map Fin (map2 (-) exp1 exp2),
                       map Fin signal_line,
                       map Fin (map2 (-) (map2 (-) exp1 exp2) signal_line)),
                 a\<lparr>data := Some (df\<lparr>macd := Some (map Fin (map2 (-) exp1 exp2)),
                                     macd_signal := Some (map Fin signal_line),
                                     macd_histogram :=
                                       Some (map Fin (map2 (-) (map2 (-) exp1 exp2) signal_line))\<rparr>)\<rparr>)))))"

section \<open>calculate_bollinger_bands\<close>

definition calculate_bollinger_bands ::
  "nat \<Rightarrow> real \<Rightarrow> analyzer \<Rightarrow> (pyfloat list \<times> pyfloat list \<times> pyfloat list) option \<times> analyzer" where
  "calculate_bollinger_bands period std_dev a =
     (case data a of
        None \<Rightarrow> (None, a)
      | Some df \<Rightarrow>
          (let sma = rolling_mean period (closes df);
               std = rolling_std period (closes df);
               upper_band = map2 (\<lambda>m s. fadd m (fmul s (Fin std_dev))) sma std;
               lower_band = map2 (\<lambda>m s. fsub m (fmul s (Fin std_dev))) sma std
           in (Some (upper_band, sma, lower_band),
               a\<lparr>data := Some (df\<lparr>bb_upper := Some upper_band,
                                   bb_middle := Some sma,
                                   bb_lower := Some lower_band\<rparr>)\<rparr>)))"

section \<open>find_support_resistance\<close>

text \<open>
  \<open>series.iloc[i:j]\<close> for \<open>0 \<le> i\<close>, \<open>0 \<le> j\<close>; \<open>.min()\<close> and \<open>.max()\<close> of an empty
  slice are NaN, and \<open>==\<close> with NaN is false.
\<close>

definition slice :: "'a list \<Rightarrow> nat \<Rightarrow> nat \<Rightarrow> 'a list" where
  "slice xs i j = take (j - i) (drop i xs)"

definition series_min :: "real list \<Rightarrow> pyfloat" where
  "series_min xs = (case xs of [] \<Rightarrow> NaN | x # rest \<Rightarrow> Fin (fold min rest x))"

definition series_max :: "real list \<Rightarrow> pyfloat" where
  "series_max xs = (case xs of [] \<Rightarrow> NaN | x # rest \<Rightarrow> Fin (fold max rest x))"

record levels =
  support :: "real list"
  resistance :: "real list"

text \<open>The body of the loop, on the pair (support_levels, resistance_levels).\<close>

definition level_step ::
  "nat \<Rightarrow> real list \<Rightarrow> real list \<Rightarrow> nat \<Rightarrow> real list \<times> real list \<Rightarrow> real list \<times> real list" where
  "level_step window ls hs i acc =
     (let s1 = (if feq (Fin (ls ! i)) (series_min (slice ls (i - window) (i + window)))
                then fst acc @ [ls ! i] else fst acc);
          r1 = (if feq (Fin (hs ! i)) (series_max (slice hs (i - window) (i + window)))
                then snd acc @ [hs ! i] else snd acc)
      in (s1, r1))"

text \<open>
  The window is a natural number (a negative one is outside the model);
  \<open>range(window, n - window)\<close> is empty when \<open>n \<le> 2 * window\<close>.
\<close>

definition find_support_resistance :: "nat \<Rightarrow> analyzer \<Rightarrow> levels option" where
  "find_support_resistance window a =
     (case data a of
        None \<Rightarrow> None
      | Some df \<Rightarrow>
          (let acc = fold (level_step window (lows df) (highs df))
                       [window ..< length (candles df) - window] ([], [])
           in Some \<lparr>support = take 3 (rev (sort (remdups (fst acc)))),
                    resistance = take 3 (sort (remdups (snd acc)))\<rparr>))"

section \<open>calculate_entry_points\<close>



record entry_plan =
  current_price :: pyfloat
  entry_range :: "pyfloat \<times> pyfloat"
  stop_loss :: pyfloat
  take_profit_1 :: pyfloat
  take_profit_2 :: pyfloat
  risk_reward_ratio :: real



section \<open>The specification's wording\<close>

text \<open>
  A frame is enriched when the indicator columns are present, each as long as the table
  (as \<open>calculate_rsi\<close>, \<open>calculate_macd\<close> and \<open>calculate_bollinger_bands\<close> leave it).
\<close>

definition has_column :: "frame \<Rightarrow> pyfloat list option \<Rightarrow> bool" where
  "has_column df c = (case c of None \<Rightarrow> False | Some xs \<Rightarrow> length xs = length (candles df))"

definition enriched :: "frame \<Rightarrow> bool" where
  "enriched df =
     (has_column df (rsi df) \<and> has_column df (macd df) \<and> has_column df (macd_signal df) \<and>
      has_column df (macd_histogram df) \<and> has_column df (bb_upper df) \<and>
      has_column df (bb_middle df) \<and> has_column df (bb_lower df))"

definition latest :: "'a list option \<Rightarrow> 'a" where
  "latest c = last (the c)"

definition previous :: "'a list option \<Rightarrow> 'a" where
  "previous c = the c ! (length (the c) - 2)"

text \<open>
  Each rule of the specification as the reason it adds and the points it gives; the
  signal is the sum of the points, classified, with the reasons in rule order.
\<close>

definition spec_rsi :: "pyfloat \<Rightarrow> reason list \<times> int" where
  "spec_rsi r =
     (if flt r (Fin 30) then ([RSI_oversold], 20)
      else if fgt r (Fin 70) then ([RSI_overbought], - 20)
      else ([], 0))"

definition spec_macd :: "pyfloat \<Rightarrow> pyfloat \<Rightarrow> pyfloat \<Rightarrow> pyfloat \<Rightarrow> reason list \<times> int" where
  "spec_macd macd_last signal_last macd_prev signal_prev =
     (if fgt macd_last signal_last \<and> fle macd_prev signal_prev
        then ([MACD_bullish_crossover], 25)
      else if flt macd_last signal_last \<and> fge macd_prev signal_prev
        then ([MACD_bearish_crossover], - 25)
      else ([], 0))"

definition spec_bands :: "pyfloat \<Rightarrow> pyfloat \<Rightarrow> pyfloat \<Rightarrow> reason list \<times> int" where
  "spec_bands price lower_band upper_band =
     (if flt price lower_band then ([Price_below_lower_band], 15)
      else if fgt price upper_band then ([Price_above_upper_band], - 15)
      else ([], 0))"

definition spec_divergence :: "divergence \<Rightarrow> reason list \<times> int" where
  "spec_divergence dv =
     (if bullish dv then ([Bullish_divergence], 20)
      else if bearish dv then ([Bearish_divergence], - 20)
      else ([], 0))"

definition spec_action :: "int \<Rightarrow> action" where
  "spec_action c =
     (if c > 40 then StrongBuy else if c > 20 then Buy
      else if c < - 40 then StrongSell else if c < - 20 then Sell else Hold)"

definition spec_signal :: "frame \<Rightarrow> divergence \<Rightarrow> signal" where
  "spec_signal df dv =
     (let r = spec_rsi (latest (rsi df));
          m = spec_macd (latest (macd df)) (latest (macd_signal df))
                (previous (macd df)) (previous (macd_signal df));
          b = spec_bands (Fin (last (closes df))) (latest (bb_lower df)) (latest (bb_upper df));
          d = spec_divergence dv;
          score = 0 + snd r + snd m + snd b + snd d
      in \<lparr>action = spec_action score, confidence = \<bar>score\<bar>,
          signals = fst r @ fst m @ fst b @ fst d\<rparr>)"

text \<open>
  The divergence rule as the specification words it: the latest close and RSI against
  those exactly 20 candles earlier, with at least 21 candles and a defined RSI at both
  places; otherwise no divergence is reported.
\<close>

definition spec_detect_divergence :: "real list \<Rightarrow> pyfloat list \<Rightarrow> divergence" where
  "spec_detect_divergence cs rs =
     (if 21 \<le> length cs \<and> length rs = length cs \<and> last rs \<noteq> NaN \<and>
         rs ! (length rs - 1 - 20) \<noteq> NaN
      then \<lparr>bullish = (last cs < cs ! (length cs - 1 - 20) \<and>
                       fgt (last rs) (rs ! (length rs - 1 - 20))),
            bearish = (last cs > cs ! (length cs - 1 - 20) \<and>
                       flt (last rs) (rs ! (length rs - 1 - 20)))\<rparr>
      else \<lparr>bullish = False, bearish = False\<rparr>)"

text \<open>
  The candidates of the specification: a low is a support candidate when it is the least
  low of the places \<open>i - w\<close> up to, not including, \<open>i + w\<close>, for \<open>i\<close> from \<open>w\<close> up to, not
  including, \<open>n - w\<close>; a high is a resistance candidate when it is the greatest high
  there. A window of 0 has empty slices and hence no candidate.
\<close>

definition support_candidates :: "nat \<Rightarrow> real list \<Rightarrow> real set" where
  "support_candidates w ls =
     (!) ls ` {i \<in> {w..<length ls - w}. 0 < w \<and> ls ! i = Min ((!) ls ` {i - w..<i + w})}"

definition resistance_candidates :: "nat \<Rightarrow> real list \<Rightarrow> real set" where
  "resistance_candidates w hs =
     (!) hs ` {i \<in> {w..<length hs - w}. 0 < w \<and> hs ! i = Max ((!) hs ` {i - w..<i + w})}"

text \<open>
  The exponential moving average as the specification words it, place by place:
  \<open>EMA[0] = x[0]\<close> and \<open>EMA[i] = \<alpha> x[i] + (1 - \<alpha>) EMA[i - 1]\<close> with
  \<open>\<alpha> = 2 / (n + 1)\<close>.
\<close>

fun spec_ema :: "nat \<Rightarrow> real list \<Rightarrow> nat \<Rightarrow> real" where
  "spec_ema n xs 0 = xs ! 0"
| "spec_ema n xs (Suc i) =
     2 / (real n + 1) * xs ! Suc i + (1 - 2 / (real n + 1)) * spec_ema n xs i"

definition spec_macd_line :: "nat \<Rightarrow> nat \<Rightarrow> real list \<Rightarrow> real list" where
  "spec_macd_line fast slow cs =
     map (\<lambda>j. spec_ema fast cs j - spec_ema slow cs j) [0..<length cs]"

section \<open>Example inputs\<close>

definition example_candle :: "nat \<Rightarrow> real \<Rightarrow> candle" where
  "example_candle t c =
     \<lparr>timestamp = t, open_price = c, high = c, low = c, close = c, volume = 1\<rparr>"

definition raw_frame :: "candle list \<Rightarrow> frame" where
  "raw_frame cs =
     \<lparr>candles = cs, rsi = None, macd = None, macd_signal = None, macd_histogram = None,
      bb_upper = None, bb_middle = None, bb_lower = None\<rparr>"

definition analyzer_of :: "frame \<Rightarrow> analyzer" where
  "analyzer_of df = \<lparr>symbol = ''BTC/USDT'', timeframe = ''1h'', data = Some df\<rparr>"

text \<open>
  Twenty candles, the oldest closing at 110 and the others at 100, with indicator columns
  set so that the latest RSI is 25 (20 at the oldest candle), the MACD crosses above its
  signal line at the latest candle, and the lower band is 105.
\<close>

definition crafted_frame :: frame where
  "crafted_frame =
     \<lparr>candles = example_candle 0 110 # map (\<lambda>t. example_candle t 100) [1..<20],
      rsi = Some (Fin 20 # replicate 18 NaN @ [Fin 25]),
      macd = Some (replicate 18 (Fin 0) @ [Fin (- 1), Fin 1]),
      macd_signal = Some (replicate 20 (Fin 0)),
      macd_histogram = Some (replicate 18 (Fin 0) @ [Fin (- 1), Fin 1]),
      bb_upper = Some (replicate 19 NaN @ [Fin 125]),
      bb_middle = Some (replicate 19 NaN @ [Fin 115]),
      bb_lower = Some (replicate 19 NaN @ [Fin 105])\<rparr>"

definition crafted :: analyzer where
  "crafted = \<lparr>symbol = ''BTC/USDT'', timeframe = ''1h'', data = Some crafted_frame\<rparr>"

text \<open>Nineteen candles closing at 100, with an RSI column of 50 throughout.\<close>

definition nineteen :: analyzer where
  "nineteen =
     analyzer_of ((raw_frame (map (\<lambda>t. example_candle t 100) [0..<19]))
       \<lparr>rsi := Some (replicate 19 (Fin 50))\<rparr>)"

text \<open>
  Twenty-one candles: the oldest closes at 200 with RSI 10, the next at 50 with RSI 90,
  the others at 100 with RSI 50.
\<close>

definition twenty_one :: analyzer where
  "twenty_one =
     analyzer_of ((raw_frame (example_candle 0 200 # example_candle 1 50 #
                     map (\<lambda>t. example_candle t 100) [2..<21]))
       \<lparr>rsi := Some (Fin 10 # Fin 90 # replicate 19 (Fin 50))\<rparr>)"

text \<open>Ten candles closing at 100, 101, ..., 109, no indicator computed yet.\<close>

definition ten_candles :: analyzer where
  "ten_candles = analyzer_of (raw_frame (map (\<lambda>t. example_candle t (100 + real t)) [0..<10]))"

text \<open>Twenty candles closing at 100 whose indicator columns are NaN throughout.\<close>

definition all_nan_frame :: frame where
  "all_nan_frame =
     \<lparr>candles = map (\<lambda>t. example_candle t 100) [0..<20],
      rsi = Some (replicate 20 NaN),
      macd = Some (replicate 20 NaN),
      macd_signal = Some (replicate 20 NaN),
      macd_histogram = Some (replicate 20 NaN),
      bb_upper = Some (replicate 20 NaN),
      bb_middle = Some (replicate 20 NaN),
      bb_lower = Some (replicate 20 NaN)\<rparr>"



text \<open>Twelve candles with the lows 5, 4, 3, 4, 5, 6, 2, 6, 5, 1, 7, 8 and each high one above.\<close>

definition level_candle :: "nat \<Rightarrow> real \<Rightarrow> candle" where
  "level_candle t l =
     \<lparr>timestamp = t, open_price = l, high = l + 1, low = l, close = l, volume = 1\<rparr>"

definition level_example :: analyzer where
  "level_example =
     analyzer_of (raw_frame (map2 level_candle [0..<12] [5, 4, 3, 4, 5, 6, 2, 6, 5, 1, 7, 8]))"

text \<open>
  Nineteen candles closing at 100 with every indicator column present: the RSI is NaN,
  the MACD columns are 0 and the bands are NaN throughout.
\<close>

definition nineteen_enriched :: analyzer where
  "nineteen_enriched =
     analyzer_of
       \<lparr>candles = map (\<lambda>t. example_candle t 100) [0..<19],
        rsi = Some (replicate 19 NaN),
        macd = Some (replicate 19 (Fin 0)),
        macd_signal = Some (replicate 19 (Fin 0)),
        macd_histogram = Some (replicate 19 (Fin 0)),
        bb_upper = Some (replicate 19 NaN),
        bb_middle = Some (replicate 19 NaN),
        bb_lower = Some (replicate 19 NaN)\<rparr>"

section \<open>Basic facts\<close>

lemma bind_err_simps:
  "bind_err (Inr x) f = f x"
  "bind_err (Inl e) f = Inl e"
  by (simp_all add: bind_err_def)

lemma bind_err_Inr_iff:
  "bind_err m f = Inr y \<longleftrightarrow> (\<exists>x. m = Inr x \<and> f x = Inr y)"
  by (cases m) (simp_all add: bind_err_def)

lemma iloc_back:
  "0 < k \<Longrightarrow> k \<le> length xs \<Longrightarrow> iloc xs (- int k) = Inr (xs ! (length xs - k))"
  by (simp add: iloc_def nat_diff_distrib' flip: of_nat_diff)

lemma iloc_short:
  "length xs < k \<Longrightarrow> iloc xs (- int k) = Inl IndexError"
  by (simp add: iloc_def)

lemma iloc_error: "iloc xs i = Inl e \<Longrightarrow> e = IndexError"
  by (auto simp: iloc_def split: if_splits)

lemma iloc_last: "xs \<noteq> [] \<Longrightarrow> iloc xs (- 1) = Inr (last xs)"
  using iloc_back [of 1 xs] by (cases xs rule: rev_cases) (simp_all add: Suc_le_eq)

lemma iloc_prev: "2 \<le> length xs \<Longrightarrow> iloc xs (- 2) = Inr (xs ! (length xs - 2))"
  using iloc_back [of 2 xs] by simp

lemma iloc_20: "20 \<le> length xs \<Longrightarrow> iloc xs (- 20) = Inr (xs ! (length xs - 20))"
  using iloc_back [of 20 xs] by simp

lemma flt_NaN [simp]: "flt x NaN = False" "flt NaN x = False"
  by (cases x; simp)+

lemma feq_NaN [simp]: "feq x NaN = False" "feq NaN x = False"
  by (cases x; simp)+

lemma cmp_NaN [simp]:
  "fgt x NaN = False" "fgt NaN x = False"
  "fle x NaN = False" "fle NaN x = False"
  "fge x NaN = False" "fge NaN x = False"
  by (simp_all add: fgt_def fle_def fge_def)

lemma arith_NaN [simp]:
  "fadd x NaN = NaN" "fadd NaN x = NaN" "fsub x NaN = NaN" "fsub NaN x = NaN"
  "fmul x NaN = NaN" "fmul NaN x = NaN" "fdiv x NaN = NaN" "fdiv NaN x = NaN"
  by (cases x; simp add: fsub_def)+

lemma flt_asym: "flt x y \<Longrightarrow> \<not> flt y x"
  by (cases x; cases y; simp)

section \<open>The score of a signal\<close>

lemma rsi_rule_step:
  "rsi_rule r st \<in> {st, fire RSI_oversold 20 st, fire RSI_overbought (- 20) st}"
  by (simp add: rsi_rule_def)

lemma macd_rule_step:
  "macd_rule df st = Inr st' \<Longrightarrow>
     st' \<in> {st, fire MACD_bullish_crossover 25 st, fire MACD_bearish_crossover (- 25) st}"
  by (auto simp: macd_rule_def bind_err_Inr_iff split: if_splits)

lemma bollinger_rule_step:
  "bollinger_rule df p st = Inr st' \<Longrightarrow>
     st' \<in> {st, fire Price_below_lower_band 15 st, fire Price_above_upper_band (- 15) st}"
  by (auto simp: bollinger_rule_def bind_err_Inr_iff split: if_splits)

lemma divergence_rule_step:
  "divergence_rule dv st \<in> {st, fire Bullish_divergence 20 st, fire Bearish_divergence (- 20) st}"
  by (simp add: divergence_rule_def split: option.splits)

lemma tally_signals_steps:
  assumes "tally_signals a df = Inr st"
  shows "\<exists>st1 st2 st3.
           st1 \<in> {([], 0), fire RSI_oversold 20 ([], 0), fire RSI_overbought (- 20) ([], 0)} \<and>
           st2 \<in> {st1, fire MACD_bullish_crossover 25 st1, fire MACD_bearish_crossover (- 25) st1} \<and>
           st3 \<in> {st2, fire Price_below_lower_band 15 st2, fire Price_above_upper_band (- 15) st2} \<and>
           st \<in> {st3, fire Bullish_divergence 20 st3, fire Bearish_divergence (- 20) st3}"
proof -
  from assms obtain rc r st2 p st3 dv where
    s2: "macd_rule df (rsi_rule r ([], 0)) = Inr st2" and
    s3: "bollinger_rule df p st2 = Inr st3" and
    s4: "st = divergence_rule dv st3"
    by (auto simp: tally_signals_def bind_err_Inr_iff)
  show ?thesis
    using rsi_rule_step [of r "([], 0)"] macd_rule_step [OF s2] bollinger_rule_step [OF s3]
      divergence_rule_step [of dv st3] s4
    by blast
qed

lemma tally_score_parts:
  assumes "tally_signals a df = Inr st"
  shows "\<exists>r m b d. r \<in> {0, 20, - 20} \<and> m \<in> {0, 25, - 25} \<and> b \<in> {0, 15, - 15} \<and>
           d \<in> {0, 20, - 20} \<and> snd st = r + m + b + d"
proof -
  from tally_signals_steps [OF assms] obtain st1 st2 st3 where
    a1: "st1 \<in> {([], 0), fire RSI_oversold 20 ([], 0), fire RSI_overbought (- 20) ([], 0)}" and
    a2: "st2 \<in> {st1, fire MACD_bullish_crossover 25 st1, fire MACD_bearish_crossover (- 25) st1}" and
    a3: "st3 \<in> {st2, fire Price_below_lower_band 15 st2, fire Price_above_upper_band (- 15) st2}" and
    a4: "st \<in> {st3, fire Bullish_divergence 20 st3, fire Bearish_divergence (- 20) st3}"
    by blast
  from a1 have "snd st1 \<in> {0, 20, - 20}" by (auto simp: fire_def)
  moreover from a2 have "snd st2 - snd st1 \<in> {0, 25, - 25}" by (auto simp: fire_def)
  moreover from a3 have "snd st3 - snd st2 \<in> {0, 15, - 15}" by (auto simp: fire_def)
  moreover from a4 have "snd st - snd st3 \<in> {0, 20, - 20}" by (auto simp: fire_def)
  moreover have "snd st = snd st1 + (snd st2 - snd st1) + (snd st3 - snd st2) + (snd st - snd st3)"
    by simp
  ultimately show ?thesis by blast
qed

text \<open>
  Claim C10. Whenever \<open>generate_signal\<close> reports a signal, the signed score it was built
  from is a sum of one contribution per rule, from 0, 20, -20 for the RSI rule, 0, 25, -25
  for the MACD rule, 0, 15, -15 for the Bollinger rule and 0, 20, -20 for the divergence
  rule; the score lies between -80 and 80, is a multiple of 5, and the reported
  confidence, its absolute value, is at most 80.
\<close>

theorem score_bounded:
  assumes "generate_signal a = Inr (Some s)"
  shows "\<exists>df st. data a = Some df \<and> tally_signals a df = Inr st \<and> s = report st \<and>
           (\<exists>r m b d. r \<in> {0, 20, - 20} \<and> m \<in> {0, 25, - 25} \<and> b \<in> {0, 15, - 15} \<and>
              d \<in> {0, 20, - 20} \<and> snd st = r + m + b + d) \<and>
           - 80 \<le> snd st \<and> snd st \<le> 80 \<and> 5 dvd snd st \<and>
           confidence s = \<bar>snd st\<bar> \<and> confidence s \<le> 80"
proof -
  from assms obtain df st where df: "data a = Some df" and st: "tally_signals a df = Inr st"
    and s: "s = report st"
    by (auto simp: generate_signal_def bind_err_Inr_iff split: option.splits)
  from tally_score_parts [OF st] obtain r m b d where
    parts: "r \<in> {0, 20, - 20}" "m \<in> {0, 25, - 25}" "b \<in> {0, 15, - 15}" "d \<in> {0, 20, - 20}"
      "snd st = r + m + b + d"
    by blast
  have dv: "5 dvd r" "5 dvd m" "5 dvd b" "5 dvd d" using parts by auto
  have d5: "5 dvd snd st" using dv parts(5) by simp
  have lo: "- 80 \<le> snd st" and hi: "snd st \<le> 80" using parts by auto
  have c: "confidence s = \<bar>snd st\<bar>" by (simp add: s report_def)
  have c80: "confidence s \<le> 80" using c lo hi by simp
  have ex: "\<exists>r m b d. r \<in> {0, 20, - 20} \<and> m \<in> {0, 25, - 25} \<and> b \<in> {0, 15, - 15} \<and>
              d \<in> {0, 20, - 20} \<and> snd st = r + m + b + d"
    using parts by blast
  from df st s ex lo hi d5 c c80 show ?thesis by blast
qed

theorem score_bounded_witness:
  "generate_signal crafted =
     Inr (Some \<lparr>action = StrongBuy, confidence = 80,
                signals = [RSI_oversold, MACD_bullish_crossover,
                           Price_below_lower_band, Bullish_divergence]\<rparr>) \<and>
   (80::int) \<le> 80 \<and>
   tally_signals crafted crafted_frame =
     Inr ([RSI_oversold, MACD_bullish_crossover, Price_below_lower_band, Bullish_divergence], 80)"
proof -
  have g: "generate_signal crafted =
     Inr (Some \<lparr>action = StrongBuy, confidence = 80,
                signals = [RSI_oversold, MACD_bullish_crossover,
                           Price_below_lower_band, Bullish_divergence]\<rparr>)"
    by code_simp
  have t: "tally_signals crafted crafted_frame =
     Inr ([RSI_oversold, MACD_bullish_crossover, Price_below_lower_band, Bullish_divergence], 80)"
    by code_simp
  from score_bounded [OF g] g t show ?thesis by simp
qed

section \<open>Rolling windows\<close>

lemma length_rolling_mean [simp]: "length (rolling_mean p xs) = length xs"
  by (simp add: rolling_mean_def)

lemma length_rolling_std [simp]: "length (rolling_std p xs) = length xs"
  by (simp add: rolling_std_def)

lemma rolling_mean_nth:
  "i < length xs \<Longrightarrow>
     rolling_mean p xs ! i = (if p = 0 \<or> i + 1 < p then NaN else Fin (mean (window_at p xs i)))"
  by (simp add: rolling_mean_def)

lemma rolling_std_nth:
  "i < length xs \<Longrightarrow>
     rolling_std p xs ! i = (if p \<le> 1 \<or> i + 1 < p then NaN else Fin (sample_std (window_at p xs i)))"
  by (simp add: rolling_std_def)

lemma window_at_nth:
  "p \<le> i + 1 \<Longrightarrow> i < length xs \<Longrightarrow> window_at p xs i = map ((!) xs) [i + 1 - p..<i + 1]"
  by (auto simp: window_at_def list_eq_iff_nth_eq simp del: upt_Suc)

lemma window_at_length: "p \<le> i + 1 \<Longrightarrow> i < length xs \<Longrightarrow> length (window_at p xs i) = p"
  by (simp add: window_at_nth del: upt_Suc)

lemma window_at_subset: "set (window_at p xs i) \<subseteq> set xs"
  unfolding window_at_def
  by (meson set_take_subset set_drop_subset subset_trans)

lemma window_set:
  assumes "p \<le> i + 1" "i < length xs"
  shows "set (window_at p xs i) = {xs ! j | j. i + 1 - p \<le> j \<and> j \<le> i}"
  using assms by (auto simp: window_at_nth simp del: upt_Suc)

section \<open>The divergence detector\<close>

lemma length_diff [simp]: "length (diff xs) = length xs"
  by (cases xs) (simp_all add: diff_def)

lemma length_gains [simp]: "length (gains d) = length d"
  by (simp add: gains_def)

lemma length_losses [simp]: "length (losses d) = length d"
  by (simp add: losses_def)

lemma length_rsi_series [simp]: "length (rsi_series p cs) = length cs"
  by (simp add: rsi_series_def)

lemma rsi_series_nth:
  "i < length cs \<Longrightarrow>
     rsi_series p cs ! i =
       rsi_of (rolling_mean p (gains (diff cs)) ! i) (rolling_mean p (losses (diff cs)) ! i)"
  by (simp add: rsi_series_def)

lemma rsi_of_NaN [simp]: "rsi_of NaN l = NaN" "rsi_of g NaN = NaN"
  by (cases l; cases g; simp add: rsi_of_def fsub_def)+

lemma diff_0: "cs \<noteq> [] \<Longrightarrow> diff cs ! 0 = None"
  by (cases cs) (simp_all add: diff_def)

lemma rsi_series_0: "cs \<noteq> [] \<Longrightarrow> rsi_series p cs ! 0 = NaN"
proof -
  assume ne: "cs \<noteq> []"
  then have l: "0 < length cs" by simp
  have g0: "gains (diff cs) ! 0 = 0" "losses (diff cs) ! 0 = 0"
    using ne l by (simp_all add: gains_def losses_def diff_0)
  have w: "window_at (Suc 0) (gains (diff cs)) 0 = [0]" "window_at (Suc 0) (losses (diff cs)) 0 = [0]"
    using l g0 by (simp_all add: window_at_def take_Suc_conv_app_nth)
  show ?thesis
  proof (cases "p = 1")
    case True
    then show ?thesis
      using l by (simp add: rsi_series_nth rolling_mean_nth w mean_def rsi_of_def fsub_def)
  next
    case False
    then have "p = 0 \<or> 0 + 1 < p" by auto
    then show ?thesis using l by (auto simp add: rsi_series_nth rolling_mean_nth)
  qed
qed

lemma detect_divergence_long:
  assumes "data a = Some df" "rsi df = Some rc" "length rc = length (candles df)"
    "20 \<le> length (candles df)"
  shows "detect_divergence a =
     Inr (Some \<lparr>bullish = (last (closes df) < closes df ! (length (candles df) - 20) \<and>
                           fgt (last rc) (rc ! (length rc - 20))),
                bearish = (last (closes df) > closes df ! (length (candles df) - 20) \<and>
                           flt (last rc) (rc ! (length rc - 20)))\<rparr>)"
proof -
  have n: "length (closes df) = length (candles df)" by (simp add: closes_def)
  have ne: "closes df \<noteq> []" "rc \<noteq> []" using assms n by auto
  show ?thesis
    using assms n
    by (simp add: detect_divergence_def iloc_last ne iloc_20 bind_err_simps)
qed

lemma detect_divergence_short:
  assumes "data a = Some df" "rsi df = Some rc" "length (candles df) < 20"
  shows "detect_divergence a = Inl IndexError"
proof -
  have n: "length (closes df) = length (candles df)" by (simp add: closes_def)
  have "iloc (closes df) (- 20) = Inl IndexError"
    using iloc_short [of "closes df" 20] assms n by simp
  moreover have "iloc (closes df) (- 1) = Inl IndexError \<or> (\<exists>c. iloc (closes df) (- 1) = Inr c)"
    by (cases "iloc (closes df) (- 1)") (auto dest: iloc_error)
  ultimately show ?thesis
    using assms by (auto simp: detect_divergence_def bind_err_simps)
qed

text \<open>
  Claim C2, as amended. With an RSI column as long as the table and at least 20
  candles, \<open>detect_divergence\<close> compares the latest close and RSI with those at position
  -20, which is 19 candles before the latest one, and returns both flags without an
  error; both are false when the RSI at either place is NaN. In particular, with exactly
  20 candles and the RSI column of \<open>calculate_rsi\<close> (any period) both flags are false,
  since the RSI of the oldest candle is NaN.
\<close>

theorem detect_divergence_lookback:
  assumes "data a = Some df" "rsi df = Some rc" "length rc = length (candles df)"
    "20 \<le> length (candles df)"
  shows "detect_divergence a =
           Inr (Some \<lparr>bullish = (last (closes df) < closes df ! (length (candles df) - 1 - 19) \<and>
                                 fgt (last rc) (rc ! (length rc - 1 - 19))),
                      bearish = (last (closes df) > closes df ! (length (candles df) - 1 - 19) \<and>
                                 flt (last rc) (rc ! (length rc - 1 - 19)))\<rparr>) \<and>
         (last rc = NaN \<or> rc ! (length rc - 1 - 19) = NaN \<longrightarrow>
            detect_divergence a = Inr (Some \<lparr>bullish = False, bearish = False\<rparr>)) \<and>
         (length (candles df) = 20 \<and> rc = rsi_series period (closes df) \<longrightarrow>
            detect_divergence a = Inr (Some \<lparr>bullish = False, bearish = False\<rparr>))"
proof (intro conjI impI)
  show "detect_divergence a =
           Inr (Some \<lparr>bullish = (last (closes df) < closes df ! (length (candles df) - 1 - 19) \<and>
                                 fgt (last rc) (rc ! (length rc - 1 - 19))),
                      bearish = (last (closes df) > closes df ! (length (candles df) - 1 - 19) \<and>
                                 flt (last rc) (rc ! (length rc - 1 - 19)))\<rparr>)"
    using detect_divergence_long [OF assms] by simp
next
  assume "last rc = NaN \<or> rc ! (length rc - 1 - 19) = NaN"
  then show "detect_divergence a = Inr (Some \<lparr>bullish = False, bearish = False\<rparr>)"
    using detect_divergence_long [OF assms] by auto
next
  assume h: "length (candles df) = 20 \<and> rc = rsi_series period (closes df)"
  then have ne: "closes df \<noteq> []" by (auto simp: closes_def)
  have "rc ! (length rc - 20) = NaN"
    using h assms(3) rsi_series_0 [OF ne, of period] by simp
  then show "detect_divergence a = Inr (Some \<lparr>bullish = False, bearish = False\<rparr>)"
    using detect_divergence_long [OF assms] h by simp
qed

theorem detect_divergence_lookback_witness:
  "20 \<le> length (candles crafted_frame) \<and>
   detect_divergence crafted = Inr (Some \<lparr>bullish = True, bearish = False\<rparr>)"
proof -
  have c1: "data crafted = Some crafted_frame" by (simp add: crafted_def)
  have c2: "rsi crafted_frame = Some (Fin 20 # replicate 18 NaN @ [Fin 25])"
    by (simp add: crafted_frame_def)
  have c3: "length (Fin 20 # replicate 18 NaN @ [Fin 25]) = length (candles crafted_frame)"
    by (simp add: crafted_frame_def)
  have c4: "20 \<le> length (candles crafted_frame)" by (simp add: crafted_frame_def)
  have c5: "last (closes crafted_frame) = 100" "closes crafted_frame ! 0 = 110"
    by (simp_all add: crafted_frame_def closes_def example_candle_def last_map)
  show ?thesis
    using detect_divergence_lookback [OF c1 c2 c3 c4] c4 c5
    by (simp add: fgt_def crafted_frame_def)
qed

text \<open>
  The claim as first stated fails: nineteen candles raise IndexError, and on twenty-one
  candles the detector reports a bearish divergence where the comparison with the candle
  20 places earlier gives a bullish one.
\<close>

theorem detect_divergence_counterexample:
  "detect_divergence nineteen = Inl IndexError \<and>
   detect_divergence twenty_one = Inr (Some \<lparr>bullish = False, bearish = True\<rparr>) \<and>
   spec_detect_divergence (closes (the (data twenty_one))) (the (rsi (the (data twenty_one)))) =
     \<lparr>bullish = True, bearish = False\<rparr>"
  by code_simp

section \<open>generate_signal and the specification\<close>

lemma enriched_columns:
  assumes "enriched df"
  obtains rc mc sc uc lc where
    "rsi df = Some rc" "length rc = length (candles df)"
    "macd df = Some mc" "length mc = length (candles df)"
    "macd_signal df = Some sc" "length sc = length (candles df)"
    "bb_upper df = Some uc" "length uc = length (candles df)"
    "bb_lower df = Some lc" "length lc = length (candles df)"
  using assms by (auto simp: enriched_def has_column_def split: option.splits)

lemma macd_rule_spec:
  assumes "macd df = Some mc" "macd_signal df = Some sc" "2 \<le> length mc" "2 \<le> length sc"
  shows "macd_rule df st =
     Inr (fst st @ fst (spec_macd (last mc) (last sc) (mc ! (length mc - 2)) (sc ! (length sc - 2))),
          snd st + snd (spec_macd (last mc) (last sc) (mc ! (length mc - 2)) (sc ! (length sc - 2))))"
proof -
  have ne: "mc \<noteq> []" "sc \<noteq> []" using assms by auto
  show ?thesis
    using assms flt_asym [of "last mc" "last sc"]
    by (auto simp: macd_rule_def column_def iloc_last ne iloc_prev bind_err_simps spec_macd_def
        fire_def fgt_def)
qed

lemma bollinger_rule_spec:
  assumes "bb_lower df = Some lc" "bb_upper df = Some uc" "lc \<noteq> []" "uc \<noteq> []"
  shows "bollinger_rule df p st =
     Inr (fst st @ fst (spec_bands (Fin p) (last lc) (last uc)),
          snd st + snd (spec_bands (Fin p) (last lc) (last uc)))"
  using assms
  by (simp add: bollinger_rule_def column_def iloc_last bind_err_simps spec_bands_def fire_def)

lemma rsi_rule_spec:
  "rsi_rule r st = (fst st @ fst (spec_rsi r), snd st + snd (spec_rsi r))"
  by (simp add: rsi_rule_def spec_rsi_def fire_def)

lemma divergence_rule_spec:
  "divergence_rule (Some dv) st = (fst st @ fst (spec_divergence dv), snd st + snd (spec_divergence dv))"
  by (simp add: divergence_rule_def spec_divergence_def fire_def)

lemma classify_spec: "classify c = spec_action c"
  by (simp add: classify_def spec_action_def)

lemma generate_signal_refines:
  assumes "data a = Some df" "enriched df" "20 \<le> length (candles df)"
    "detect_divergence a = Inr (Some dv)"
  shows "generate_signal a = Inr (Some (spec_signal df dv))"
proof -
  from \<open>enriched df\<close> obtain rc mc sc uc lc where c:
    "rsi df = Some rc" "length rc = length (candles df)"
    "macd df = Some mc" "length mc = length (candles df)"
    "macd_signal df = Some sc" "length sc = length (candles df)"
    "bb_upper df = Some uc" "length uc = length (candles df)"
    "bb_lower df = Some lc" "length lc = length (candles df)"
    by (rule enriched_columns)
  have n: "length (closes df) = length (candles df)" by (simp add: closes_def)
  have ne: "closes df \<noteq> []" "rc \<noteq> []" "lc \<noteq> []" "uc \<noteq> []" using assms c n by auto
  have m2: "2 \<le> length mc" "2 \<le> length sc" using assms c by auto
  have t: "tally_signals a df = Inr (fst (rsi_rule (last rc) ([], 0)) @ fst (spec_macd (last mc) (last sc) (mc ! (length mc - 2)) (sc ! (length sc - 2))) @ fst (spec_bands (Fin (last (closes df))) (last lc) (last uc)) @ fst (spec_divergence dv),
     snd (rsi_rule (last rc) ([], 0)) + snd (spec_macd (last mc) (last sc) (mc ! (length mc - 2)) (sc ! (length sc - 2))) + snd (spec_bands (Fin (last (closes df))) (last lc) (last uc)) + snd (spec_divergence dv))"
    unfolding tally_signals_def
    by (simp add: c column_def iloc_last ne bind_err_simps macd_rule_spec [OF c(3) c(5) m2]
        bollinger_rule_spec [OF c(9) c(7) ne(3) ne(4)] assms(4) divergence_rule_spec)
  show ?thesis
    by (simp add: generate_signal_def assms(1) t bind_err_simps report_def spec_signal_def
        Let_def latest_def previous_def c rsi_rule_spec classify_spec)
qed

text \<open>
  Claim C1, as amended. On an enriched frame of at least 20 candles \<open>generate_signal\<close> reports
  exactly the signal of the specification: the score starts at 0, the RSI, MACD, Bollinger
  and divergence rules add their points in this order, the action is chosen by the
  thresholds 40, 20, -40, -20, the confidence is the absolute value of the score and the
  reasons stand in the order of the rules. In particular, when the latest RSI is 25, the
  MACD crosses above its signal line, the close is below the lower band and the detector
  reports a bullish divergence, the signal is StrongBuy with confidence 80.
\<close>

theorem generate_signal_scoring:
  assumes "data a = Some df" "enriched df" "20 \<le> length (candles df)"
  shows "\<exists>dv. detect_divergence a = Inr (Some dv) \<and>
           generate_signal a = Inr (Some (spec_signal df dv)) \<and>
           (latest (rsi df) = Fin 25 \<and>
            fgt (latest (macd df)) (latest (macd_signal df)) \<and>
            fle (previous (macd df)) (previous (macd_signal df)) \<and>
            flt (Fin (last (closes df))) (latest (bb_lower df)) \<and> bullish dv \<longrightarrow>
              generate_signal a =
                Inr (Some \<lparr>action = StrongBuy, confidence = 80,
                           signals = [RSI_oversold, MACD_bullish_crossover,
                                      Price_below_lower_band, Bullish_divergence]\<rparr>))"
proof -
  from \<open>enriched df\<close> obtain rc where rc: "rsi df = Some rc" "length rc = length (candles df)"
    by (auto elim: enriched_columns)
  from detect_divergence_long [OF assms(1) rc assms(3)]
  obtain dv where dv: "detect_divergence a = Inr (Some dv)" by blast
  have g: "generate_signal a = Inr (Some (spec_signal df dv))"
    by (rule generate_signal_refines [OF assms dv])
  have "spec_signal df dv =
          \<lparr>action = StrongBuy, confidence = 80,
           signals = [RSI_oversold, MACD_bullish_crossover,
                      Price_below_lower_band, Bullish_divergence]\<rparr>"
    if "latest (rsi df) = Fin 25" "fgt (latest (macd df)) (latest (macd_signal df))"
      "fle (previous (macd df)) (previous (macd_signal df))"
      "flt (Fin (last (closes df))) (latest (bb_lower df))" "bullish dv"
    using that
    by (simp add: spec_signal_def spec_rsi_def spec_macd_def spec_bands_def spec_divergence_def
        spec_action_def)
  with dv g show ?thesis by auto
qed

theorem generate_signal_scoring_witness:
  "enriched crafted_frame \<and> 20 \<le> length (candles crafted_frame) \<and>
   generate_signal crafted =
     Inr (Some \<lparr>action = StrongBuy, confidence = 80,
                signals = [RSI_oversold, MACD_bullish_crossover,
                           Price_below_lower_band, Bullish_divergence]\<rparr>)"
proof -
  have h1: "data crafted = Some crafted_frame" by (simp add: crafted_def)
  have h2: "enriched crafted_frame" by code_simp
  have h3: "20 \<le> length (candles crafted_frame)" by code_simp
  have d: "detect_divergence crafted = Inr (Some \<lparr>bullish = True, bearish = False\<rparr>)"
    by code_simp
  have p: "latest (rsi crafted_frame) = Fin 25"
    "fgt (latest (macd crafted_frame)) (latest (macd_signal crafted_frame))"
    "fle (previous (macd crafted_frame)) (previous (macd_signal crafted_frame))"
    "flt (Fin (last (closes crafted_frame))) (latest (bb_lower crafted_frame))"
    by code_simp+
  from generate_signal_scoring [OF h1 h2 h3] d p h2 h3 show ?thesis by auto
qed

text \<open>
  Without the bound on the length the claim fails: on nineteen enriched candles the
  first three rules run and the divergence step raises IndexError, so nothing is reported.
\<close>

theorem generate_signal_short_counterexample:
  "enriched (the (data nineteen_enriched)) \<and>
   length (candles (the (data nineteen_enriched))) = 19 \<and>
   generate_signal nineteen_enriched = Inl IndexError"
  by code_simp

section \<open>Undefined values\<close>

lemma bollinger_data:
  assumes "data a = Some df0"
  shows "data (snd (calculate_bollinger_bands p k a)) =
     Some (df0\<lparr>bb_upper := Some (map2 (\<lambda>m s. fadd m (fmul s (Fin k)))
                                 (rolling_mean p (closes df0)) (rolling_std p (closes df0))),
               bb_middle := Some (rolling_mean p (closes df0)),
               bb_lower := Some (map2 (\<lambda>m s. fsub m (fmul s (Fin k)))
                                 (rolling_mean p (closes df0)) (rolling_std p (closes df0)))\<rparr>)"
  using assms by (simp add: calculate_bollinger_bands_def Let_def)

lemma band_values:
  assumes "i < length cs"
  shows "map2 (\<lambda>m s. fadd m (fmul s (Fin k))) (rolling_mean p cs) (rolling_std p cs) ! i =
           (if p \<le> 1 \<or> i + 1 < p then NaN
            else Fin (mean (window_at p cs i) + sample_std (window_at p cs i) * k))"
    and "map2 (\<lambda>m s. fsub m (fmul s (Fin k))) (rolling_mean p cs) (rolling_std p cs) ! i =
           (if p \<le> 1 \<or> i + 1 < p then NaN
            else Fin (mean (window_at p cs i) - sample_std (window_at p cs i) * k))"
  using assms by (auto simp: rolling_mean_nth rolling_std_nth fsub_def)

lemma bands_short:
  assumes "length cs < p"
  shows "map2 (\<lambda>m s. fadd m (fmul s (Fin k))) (rolling_mean p cs) (rolling_std p cs) =
           replicate (length cs) NaN"
    and "rolling_mean p cs = replicate (length cs) NaN"
    and "map2 (\<lambda>m s. fsub m (fmul s (Fin k))) (rolling_mean p cs) (rolling_std p cs) =
           replicate (length cs) NaN"
  using assms by (auto simp: list_eq_iff_nth_eq band_values rolling_mean_nth)

lemma bollinger_rule_NaN:
  assumes "bb_lower df = Some lc" "bb_upper df = Some uc" "lc \<noteq> []" "uc \<noteq> []"
    "last lc = NaN" "last uc = NaN"
  shows "bollinger_rule df price st = Inr st"
  using bollinger_rule_spec [OF assms(1-4), of price st] assms(5,6)
  by (simp add: spec_bands_def)

text \<open>
  Claim C3. A NaN value skips the rule that reads it: the RSI rule on a NaN RSI, the MACD
  rule when any of its four values is NaN, the Bollinger rule when a band computed by
  \<open>calculate_bollinger_bands\<close> is NaN at the latest candle, and the divergence rule when
  the RSI at either compared place is NaN, leave the list of reasons and the score as they
  were. A table shorter than the Bollinger period has NaN in all three band columns at
  every candle, and the Bollinger rule does not fire on it.
\<close>

theorem undefined_values_skip_rules:
  "rsi_rule NaN st = st \<and>
   (macd df = Some mc \<and> macd_signal df = Some sc \<and> 2 \<le> length mc \<and> 2 \<le> length sc \<and>
    (last mc = NaN \<or> last sc = NaN \<or> mc ! (length mc - 2) = NaN \<or> sc ! (length sc - 2) = NaN) \<longrightarrow>
      macd_rule df st = Inr st) \<and>
   (data a = Some df0 \<and> candles df0 \<noteq> [] \<and>
    data (snd (calculate_bollinger_bands p k a)) = Some dfb \<and>
    (latest (bb_lower dfb) = NaN \<or> latest (bb_upper dfb) = NaN) \<longrightarrow>
      bollinger_rule dfb price st = Inr st) \<and>
   (data a = Some df0 \<and> length (candles df0) < p \<and>
    data (snd (calculate_bollinger_bands p k a)) = Some dfb \<longrightarrow>
      bb_upper dfb = Some (replicate (length (candles df0)) NaN) \<and>
      bb_middle dfb = Some (replicate (length (candles df0)) NaN) \<and>
      bb_lower dfb = Some (replicate (length (candles df0)) NaN) \<and>
      (candles df0 \<noteq> [] \<longrightarrow> bollinger_rule dfb price st = Inr st)) \<and>
   (data a2 = Some df2 \<and> rsi df2 = Some rc \<and> length rc = length (candles df2) \<and>
    20 \<le> length rc \<and> (last rc = NaN \<or> rc ! (length rc - 20) = NaN) \<longrightarrow>
      (\<exists>dv. detect_divergence a2 = Inr dv \<and> divergence_rule dv st = st))"
proof (intro conjI impI)
  show "rsi_rule NaN st = st" by (simp add: rsi_rule_def)
next
  assume h: "macd df = Some mc \<and> macd_signal df = Some sc \<and> 2 \<le> length mc \<and> 2 \<le> length sc \<and>
    (last mc = NaN \<or> last sc = NaN \<or> mc ! (length mc - 2) = NaN \<or> sc ! (length sc - 2) = NaN)"
  then have "spec_macd (last mc) (last sc) (mc ! (length mc - 2)) (sc ! (length sc - 2)) = ([], 0)"
    by (auto simp: spec_macd_def)
  then show "macd_rule df st = Inr st"
    using h macd_rule_spec [of df mc sc st] by simp
next
  assume h: "data a = Some df0 \<and> candles df0 \<noteq> [] \<and>
    data (snd (calculate_bollinger_bands p k a)) = Some dfb \<and>
    (latest (bb_lower dfb) = NaN \<or> latest (bb_upper dfb) = NaN)"
  let ?cs = "closes df0"
  let ?up = "map2 (\<lambda>m s. fadd m (fmul s (Fin k))) (rolling_mean p ?cs) (rolling_std p ?cs)"
  let ?lo = "map2 (\<lambda>m s. fsub m (fmul s (Fin k))) (rolling_mean p ?cs) (rolling_std p ?cs)"
  have n: "length ?cs = length (candles df0)" "?cs \<noteq> []" using h by (simp_all add: closes_def)
  have dfb: "bb_lower dfb = Some ?lo" "bb_upper dfb = Some ?up"
    using h bollinger_data [of a df0 p k] by auto
  have len: "length ?lo = length ?cs" "length ?up = length ?cs" by simp_all
  have ne: "?lo \<noteq> []" "?up \<noteq> []" using n len by (metis length_0_conv)+
  have "0 < length ?cs" using n(2) by simp
  then have i: "length ?cs - 1 < length ?cs" by simp
  have l: "last ?lo = ?lo ! (length ?cs - 1)" "last ?up = ?up ! (length ?cs - 1)"
    using ne by (simp_all add: last_conv_nth)
  have "last ?lo = NaN \<or> last ?up = NaN" using h dfb by (simp add: latest_def)
  then have "last ?lo = NaN \<and> last ?up = NaN"
    unfolding l band_values [OF i] by (auto split: if_splits)
  then show "bollinger_rule dfb price st = Inr st"
    using bollinger_rule_NaN [OF dfb ne] by simp
next
  assume h: "data a = Some df0 \<and> length (candles df0) < p \<and>
    data (snd (calculate_bollinger_bands p k a)) = Some dfb"
  let ?cs = "closes df0"
  have n: "length ?cs = length (candles df0)" by (simp add: closes_def)
  then have short: "length ?cs < p" using h by simp
  have dfb: "bb_lower dfb = Some (replicate (length (candles df0)) NaN)"
    "bb_upper dfb = Some (replicate (length (candles df0)) NaN)"
    "bb_middle dfb = Some (replicate (length (candles df0)) NaN)"
    using h bollinger_data [of a df0 p k] bands_short [OF short] n by auto
  show "bb_upper dfb = Some (replicate (length (candles df0)) NaN)" by (rule dfb)
  show "bb_middle dfb = Some (replicate (length (candles df0)) NaN)" by (rule dfb)
  show "bb_lower dfb = Some (replicate (length (candles df0)) NaN)" by (rule dfb)
  assume "candles df0 \<noteq> []"
  then show "bollinger_rule dfb price st = Inr st"
    using bollinger_rule_NaN [OF dfb(1,2)] by simp
next
  assume h: "data a2 = Some df2 \<and> rsi df2 = Some rc \<and> length rc = length (candles df2) \<and>
    20 \<le> length rc \<and> (last rc = NaN \<or> rc ! (length rc - 20) = NaN)"
  then have "detect_divergence a2 = Inr (Some \<lparr>bullish = False, bearish = False\<rparr>)"
    using detect_divergence_long [of a2 df2 rc] by auto
  then show "\<exists>dv. detect_divergence a2 = Inr dv \<and> divergence_rule dv st = st"
    by (simp add: divergence_rule_def)
qed

theorem undefined_values_skip_rules_witness:
  "bb_lower (the (data (snd (calculate_bollinger_bands 20 2 ten_candles)))) = Some (replicate 10 NaN) \<and>
   bb_upper (the (data (snd (calculate_bollinger_bands 20 2 ten_candles)))) = Some (replicate 10 NaN) \<and>
   bollinger_rule (the (data (snd (calculate_bollinger_bands 20 2 ten_candles)))) 109 ([], 0) =
     Inr ([], 0) \<and>
   macd_rule all_nan_frame ([], 0) = Inr ([], 0) \<and>
   detect_divergence (analyzer_of all_nan_frame) = Inr (Some \<lparr>bullish = False, bearish = False\<rparr>) \<and>
   generate_signal (analyzer_of all_nan_frame) =
     Inr (Some \<lparr>action = Hold, confidence = 0, signals = []\<rparr>)"
proof -
  let ?df0 = "raw_frame (map (\<lambda>t. example_candle t (100 + real t)) [0..<10])"
  let ?dfb = "the (data (snd (calculate_bollinger_bands 20 2 ten_candles)))"
  have d0: "data ten_candles = Some ?df0" by (simp add: ten_candles_def analyzer_of_def)
  have c0: "length (candles ?df0) = 10" "candles ?df0 \<noteq> []" by (simp_all add: raw_frame_def)
  have db: "data (snd (calculate_bollinger_bands 20 2 ten_candles)) = Some ?dfb"
    using bollinger_data [OF d0, of 20 2] by simp
  have m: "macd all_nan_frame = Some (replicate 20 NaN)"
    "macd_signal all_nan_frame = Some (replicate 20 NaN)"
    "rsi all_nan_frame = Some (replicate 20 NaN)"
    "length (candles all_nan_frame) = 20"
    by (simp_all add: all_nan_frame_def)
  have a2: "data (analyzer_of all_nan_frame) = Some all_nan_frame" by (simp add: analyzer_of_def)
  have g: "generate_signal (analyzer_of all_nan_frame) =
     Inr (Some \<lparr>action = Hold, confidence = 0, signals = []\<rparr>)"
    by code_simp
  have dd: "detect_divergence (analyzer_of all_nan_frame) =
     Inr (Some \<lparr>bullish = False, bearish = False\<rparr>)"
    by code_simp
  show ?thesis
    using undefined_values_skip_rules [of "([], 0)" all_nan_frame "replicate 20 NaN"
        "replicate 20 NaN" ten_candles ?df0 20 2 ?dfb 109 "analyzer_of all_nan_frame"
        all_nan_frame "replicate 20 NaN"]
      d0 c0 db m a2 g dd
    by simp
qed

section \<open>Entry points\<close>







section \<open>Support and resistance levels\<close>

lemma fold_level_step:
  "fold (level_step w ls hs) ixs acc =
     (fst acc @ map ((!) ls)
        (filter (\<lambda>i. feq (Fin (ls ! i)) (series_min (slice ls (i - w) (i + w)))) ixs),
      snd acc @ map ((!) hs)
        (filter (\<lambda>i. feq (Fin (hs ! i)) (series_max (slice hs (i - w) (i + w)))) ixs))"
  by (induction ixs arbitrary: acc) (simp_all add: level_step_def Let_def)

lemma slice_nth: "i \<le> j \<Longrightarrow> j \<le> length xs \<Longrightarrow> slice xs i j = map ((!) xs) [i..<j]"
  by (auto simp: slice_def list_eq_iff_nth_eq)

lemma series_min_Min: "xs \<noteq> [] \<Longrightarrow> series_min xs = Fin (Min (set xs))"
  by (cases xs) (simp_all add: series_min_def Min.set_eq_fold [symmetric])

lemma series_max_Max: "xs \<noteq> [] \<Longrightarrow> series_max xs = Fin (Max (set xs))"
  by (cases xs) (simp_all add: series_max_def Max.set_eq_fold [symmetric])

lemma is_support_iff:
  assumes "w \<le> i" "i + w \<le> length ls"
  shows "feq (Fin (ls ! i)) (series_min (slice ls (i - w) (i + w))) \<longleftrightarrow>
           0 < w \<and> ls ! i = Min ((!) ls ` {i - w..<i + w})"
proof (cases "w = 0")
  case True
  then show ?thesis by (simp add: slice_def series_min_def)
next
  case False
  have s: "slice ls (i - w) (i + w) = map ((!) ls) [i - w..<i + w]"
    using assms by (intro slice_nth) auto
  have ne: "map ((!) ls) [i - w..<i + w] \<noteq> []" using False assms by simp
  show ?thesis using False by (simp add: s series_min_Min [OF ne])
qed

lemma is_resistance_iff:
  assumes "w \<le> i" "i + w \<le> length hs"
  shows "feq (Fin (hs ! i)) (series_max (slice hs (i - w) (i + w))) \<longleftrightarrow>
           0 < w \<and> hs ! i = Max ((!) hs ` {i - w..<i + w})"
proof (cases "w = 0")
  case True
  then show ?thesis by (simp add: slice_def series_max_def)
next
  case False
  have s: "slice hs (i - w) (i + w) = map ((!) hs) [i - w..<i + w]"
    using assms by (intro slice_nth) auto
  have ne: "map ((!) hs) [i - w..<i + w] \<noteq> []" using False assms by simp
  show ?thesis using False by (simp add: s series_max_Max [OF ne])
qed

lemma top_of_sorted:
  assumes "sorted L" "distinct L" "x \<in> set L" "x \<notin> set (take k (rev L))"
    "y \<in> set (take k (rev L))"
  shows "x < (y::real)"
proof -
  let ?m = "length L - k"
  have t: "set (take k (rev L)) = set (drop ?m L)" by (simp add: take_rev)
  have L: "L = take ?m L @ drop ?m L" by simp
  have x: "x \<in> set (take ?m L)" using assms(3,4) t by (metis L Un_iff set_append)
  have y: "y \<in> set (drop ?m L)" using assms(5) t by simp
  have "sorted (take ?m L @ drop ?m L)" using assms(1) by simp
  then have le: "x \<le> y" using x y unfolding sorted_append by blast
  have "distinct (take ?m L @ drop ?m L)" using assms(2) by simp
  then have "x \<noteq> y" using x y unfolding distinct_append by blast
  with le show ?thesis by simp
qed

lemma bottom_of_sorted:
  assumes "sorted L" "distinct L" "x \<in> set L" "x \<notin> set (take k L)" "y \<in> set (take k L)"
  shows "(y::real) < x"
proof -
  have L: "L = take k L @ drop k L" by simp
  have x: "x \<in> set (drop k L)" using assms(3,4) by (metis L Un_iff set_append)
  have "sorted (take k L @ drop k L)" using assms(1) by simp
  then have le: "y \<le> x" using x assms(5) unfolding sorted_append by blast
  have "distinct (take k L @ drop k L)" using assms(2) by simp
  then have "x \<noteq> y" using x assms(5) unfolding distinct_append by blast
  with le show ?thesis by simp
qed

lemma set_support_filter:
  "set (map ((!) ls)
         (filter (\<lambda>i. feq (Fin (ls ! i)) (series_min (slice ls (i - w) (i + w))))
            [w..<length ls - w])) = support_candidates w ls"
proof -
  have "feq (Fin (ls ! i)) (series_min (slice ls (i - w) (i + w))) \<longleftrightarrow>
          0 < w \<and> ls ! i = Min ((!) ls ` {i - w..<i + w})"
    if "i \<in> {w..<length ls - w}" for i
    using that by (intro is_support_iff) auto
  then have "{i \<in> {w..<length ls - w}. feq (Fin (ls ! i)) (series_min (slice ls (i - w) (i + w)))} =
      {i \<in> {w..<length ls - w}. 0 < w \<and> ls ! i = Min ((!) ls ` {i - w..<i + w})}"
    by blast
  then show ?thesis unfolding support_candidates_def by simp
qed

lemma set_resistance_filter:
  "set (map ((!) hs)
         (filter (\<lambda>i. feq (Fin (hs ! i)) (series_max (slice hs (i - w) (i + w))))
            [w..<length hs - w])) = resistance_candidates w hs"
proof -
  have "feq (Fin (hs ! i)) (series_max (slice hs (i - w) (i + w))) \<longleftrightarrow>
          0 < w \<and> hs ! i = Max ((!) hs ` {i - w..<i + w})"
    if "i \<in> {w..<length hs - w}" for i
    using that by (intro is_resistance_iff) auto
  then have "{i \<in> {w..<length hs - w}. feq (Fin (hs ! i)) (series_max (slice hs (i - w) (i + w)))} =
      {i \<in> {w..<length hs - w}. 0 < w \<and> hs ! i = Max ((!) hs ` {i - w..<i + w})}"
    by blast
  then show ?thesis unfolding resistance_candidates_def by simp
qed

lemma finite_candidates [simp]:
  "finite (support_candidates w ls)" "finite (resistance_candidates w hs)"
  by (simp_all add: support_candidates_def resistance_candidates_def)

lemma find_support_resistance_sets:
  assumes "data a = Some df"
  shows "find_support_resistance w a =
     Some \<lparr>support = take 3 (rev (sorted_list_of_set (support_candidates w (lows df)))),
           resistance = take 3 (sorted_list_of_set (resistance_candidates w (highs df)))\<rparr>"
proof -
  have n: "length (lows df) = length (candles df)" "length (highs df) = length (candles df)"
    by (simp_all add: lows_def highs_def)
  show ?thesis
    using set_support_filter [of "lows df" w] set_resistance_filter [of "highs df" w]
    by (simp add: find_support_resistance_def assms fold_level_step Let_def n
        sorted_list_of_set_sort_remdups [symmetric] del: set_map set_filter)
qed

text \<open>
  Claim C6. \<open>find_support_resistance\<close> collects the lows that equal the least low of
  the half-open slice from \<open>i - w\<close> to \<open>i + w\<close>, for \<open>i\<close> from \<open>w\<close> to \<open>n - w\<close>, and the highs that
  equal the greatest high there; equal values count once. It returns the three greatest
  support candidates in descending order and the three least resistance candidates in
  ascending order: each list is sorted, without repetition, of length at most 3, drawn from
  the candidates, and every candidate left out is below (support) or above (resistance)
  every value returned.
\<close>

theorem support_resistance_levels:
  assumes "data a = Some df"
  shows "\<exists>lv. find_support_resistance w a = Some lv \<and>
     support lv = take 3 (rev (sorted_list_of_set (support_candidates w (lows df)))) \<and>
     resistance lv = take 3 (sorted_list_of_set (resistance_candidates w (highs df))) \<and>
     length (support lv) = min 3 (card (support_candidates w (lows df))) \<and>
     length (resistance lv) = min 3 (card (resistance_candidates w (highs df))) \<and>
     length (support lv) \<le> 3 \<and> length (resistance lv) \<le> 3 \<and>
     sorted (rev (support lv)) \<and> distinct (support lv) \<and>
     sorted (resistance lv) \<and> distinct (resistance lv) \<and>
     set (support lv) \<subseteq> support_candidates w (lows df) \<and>
     set (resistance lv) \<subseteq> resistance_candidates w (highs df) \<and>
     (\<forall>x\<in>support_candidates w (lows df). x \<notin> set (support lv) \<longrightarrow>
        (\<forall>y\<in>set (support lv). x < y)) \<and>
     (\<forall>x\<in>resistance_candidates w (highs df). x \<notin> set (resistance lv) \<longrightarrow>
        (\<forall>y\<in>set (resistance lv). y < x))"
proof -
  let ?S = "support_candidates w (lows df)" and ?R = "resistance_candidates w (highs df)"
  let ?LS = "sorted_list_of_set ?S" and ?LR = "sorted_list_of_set ?R"
  let ?lv = "\<lparr>support = take 3 (rev ?LS), resistance = take 3 ?LR\<rparr>"
  have f: "find_support_resistance w a = Some ?lv" by (rule find_support_resistance_sets [OF assms])
  have sS: "sorted ?LS" "distinct ?LS" "set ?LS = ?S" "length ?LS = card ?S" by simp_all
  have sR: "sorted ?LR" "distinct ?LR" "set ?LR = ?R" "length ?LR = card ?R" by simp_all
  have 1: "length (take 3 (rev ?LS)) = min 3 (card ?S)" "length (take 3 ?LR) = min 3 (card ?R)"
    using sS(4) sR(4) by simp_all
  have 2: "sorted (rev (take 3 (rev ?LS)))" using sS(1) by (simp add: take_rev sorted_wrt_drop)
  have 3: "distinct (take 3 (rev ?LS))" using sS(2) by (simp add: distinct_take)
  have 4: "sorted (take 3 ?LR)" "distinct (take 3 ?LR)"
    using sR(1,2) by (simp_all add: sorted_wrt_take distinct_take)
  have 5: "set (take 3 (rev ?LS)) \<subseteq> ?S" using set_take_subset [of 3 "rev ?LS"] by simp
  have 6: "set (take 3 ?LR) \<subseteq> ?R" using set_take_subset [of 3 ?LR] by simp
  have 7: "\<forall>x\<in>?S. x \<notin> set (take 3 (rev ?LS)) \<longrightarrow> (\<forall>y\<in>set (take 3 (rev ?LS)). x < y)"
    using top_of_sorted [OF sS(1,2)] by simp
  have 8: "\<forall>x\<in>?R. x \<notin> set (take 3 ?LR) \<longrightarrow> (\<forall>y\<in>set (take 3 ?LR). y < x)"
    using bottom_of_sorted [OF sR(1,2)] by simp
  have 9: "length (take 3 (rev ?LS)) \<le> 3" "length (take 3 ?LR) \<le> 3" by simp_all
  show ?thesis
    apply (rule exI [of _ ?lv])
    using f 1 2 3 4 5 6 7 8 9 by simp
qed

theorem support_resistance_levels_witness:
  "find_support_resistance 2 level_example = Some \<lparr>support = [3, 2, 1], resistance = [7]\<rparr> \<and>
   take 3 (rev (sorted_list_of_set (support_candidates 2 [5, 4, 3, 4, 5, 6, 2, 6, 5, 1, 7, 8]))) =
     [3, 2, 1]"
proof -
  let ?df = "raw_frame (map2 level_candle [0..<12] [5, 4, 3, 4, 5, 6, 2, 6, 5, 1, 7, 8])"
  have d: "data level_example = Some ?df" by (simp add: level_example_def analyzer_of_def)
  have l: "lows ?df = [5, 4, 3, 4, 5, 6, 2, 6, 5, 1, 7, 8]" by code_simp
  have v: "find_support_resistance 2 level_example = Some \<lparr>support = [3, 2, 1], resistance = [7]\<rparr>"
    by code_simp
  from support_resistance_levels [OF d, of 2] v l show ?thesis by auto
qed

section \<open>The range of the RSI\<close>

lemma gains_nonneg: "x \<in> set (gains d) \<Longrightarrow> 0 \<le> x"
  by (auto simp: gains_def split: option.splits)

lemma losses_nonneg: "x \<in> set (losses d) \<Longrightarrow> 0 \<le> x"
  by (auto simp: losses_def split: option.splits)

lemma mean_nonneg: "(\<And>x. x \<in> set w \<Longrightarrow> 0 \<le> x) \<Longrightarrow> 0 \<le> mean w"
  by (simp add: mean_def sum_list_nonneg)

lemma mean_gain_nonneg: "0 \<le> mean (window_at p (gains d) i)"
  using window_at_subset [of p "gains d" i] by (intro mean_nonneg) (auto dest: gains_nonneg)

lemma mean_loss_nonneg: "0 \<le> mean (window_at p (losses d) i)"
  using window_at_subset [of p "losses d" i] by (intro mean_nonneg) (auto dest: losses_nonneg)

lemma rsi_of_Fin:
  assumes "0 \<le> g" "0 \<le> l"
  shows "rsi_of (Fin g) (Fin l) =
           (if l = 0 then (if g = 0 then NaN else Fin 100) else Fin (100 - 100 / (1 + g / l)))"
proof -
  have "1 + g / l \<noteq> 0" if "l \<noteq> 0"
  proof -
    have "0 \<le> g / l" using assms by simp
    then show ?thesis by linarith
  qed
  then show ?thesis using assms by (auto simp: rsi_of_def fsub_def)
qed

lemma rsi_formula_range:
  assumes "0 \<le> g" "0 < (l::real)"
  shows "0 \<le> 100 - 100 / (1 + g / l)" "100 - 100 / (1 + g / l) \<le> 100"
proof -
  have "0 \<le> g / l" using assms by simp
  then have "1 \<le> 1 + g / l" by simp
  then have "100 / (1 + g / l) \<le> 100 / 1" by (intro divide_left_mono) simp_all
  then show "0 \<le> 100 - 100 / (1 + g / l)" by simp
  have "0 \<le> 100 / (1 + g / l)" using \<open>1 \<le> 1 + g / l\<close> by simp
  then show "100 - 100 / (1 + g / l) \<le> 100" by simp
qed

lemma rsi_series_value:
  assumes "i < length cs"
  shows "rsi_series p cs ! i =
     (if p = 0 \<or> i + 1 < p then NaN
      else rsi_of (Fin (mean (window_at p (gains (diff cs)) i)))
                  (Fin (mean (window_at p (losses (diff cs)) i))))"
  using assms by (simp add: rsi_series_nth rolling_mean_nth)

lemma rsi_series_range:
  assumes "i < length cs" "rsi_series period cs ! i \<noteq> NaN"
  shows "\<exists>r. rsi_series period cs ! i = Fin r \<and> 0 \<le> r \<and> r \<le> 100"
proof -
  let ?g = "mean (window_at period (gains (diff cs)) i)"
  let ?l = "mean (window_at period (losses (diff cs)) i)"
  have g: "0 \<le> ?g" by (rule mean_gain_nonneg)
  have l: "0 \<le> ?l" by (rule mean_loss_nonneg)
  have v: "rsi_series period cs ! i = rsi_of (Fin ?g) (Fin ?l)"
    using assms rsi_series_value [OF assms(1), of period] by (auto split: if_splits)
  show ?thesis
  proof (cases "?l = 0")
    case True
    with assms(2) v g l have "rsi_series period cs ! i = Fin 100"
      by (simp add: rsi_of_Fin split: if_splits)
    then show ?thesis by simp
  next
    case False
    with l have lp: "0 < ?l" by simp
    have "rsi_series period cs ! i = Fin (100 - 100 / (1 + ?g / ?l))"
      using v g l False by (simp add: rsi_of_Fin)
    with rsi_formula_range [OF g lp] show ?thesis by blast
  qed
qed

text \<open>
  Claim C5. Every RSI value that \<open>calculate_rsi\<close> computes and that is not NaN is a
  finite number between 0 and 100, both included.
\<close>

theorem rsi_within_0_100:
  assumes "calculate_rsi period a = (Some rs, a')" "i < length rs" "rs ! i \<noteq> NaN"
  shows "\<exists>r. rs ! i = Fin r \<and> 0 \<le> r \<and> r \<le> 100"
proof -
  from assms(1) obtain df where "data a = Some df" and rs: "rs = rsi_series period (closes df)"
    by (auto simp: calculate_rsi_def split: option.splits)
  with assms(2,3) rsi_series_range [of i "closes df" period] show ?thesis by simp
qed

theorem rsi_within_0_100_witness:
  "calculate_rsi 3 ten_candles =
     (Some (replicate 2 NaN @ replicate 8 (Fin 100)),
      analyzer_of ((raw_frame (map (\<lambda>t. example_candle t (100 + real t)) [0..<10]))
        \<lparr>rsi := Some (replicate 2 NaN @ replicate 8 (Fin 100))\<rparr>)) \<and>
   (\<exists>r. (replicate 2 NaN @ replicate 8 (Fin 100)) ! 5 = Fin r \<and> 0 \<le> r \<and> r \<le> 100)"
proof -
  have c: "calculate_rsi 3 ten_candles =
     (Some (replicate 2 NaN @ replicate 8 (Fin 100)),
      analyzer_of ((raw_frame (map (\<lambda>t. example_candle t (100 + real t)) [0..<10]))
        \<lparr>rsi := Some (replicate 2 NaN @ replicate 8 (Fin 100))\<rparr>))"
    by code_simp
  have l: "5 < length (replicate 2 NaN @ replicate 8 (Fin 100))" by simp
  have d: "(replicate 2 NaN @ replicate 8 (Fin 100)) ! 5 \<noteq> NaN" by (simp add: nth_append)
  from rsi_within_0_100 [OF c l d] c show ?thesis by blast
qed

lemma diff_nth: "0 < j \<Longrightarrow> j < length cs \<Longrightarrow> diff cs ! j = Some (cs ! j - cs ! (j - 1))"
  by (cases cs; cases j) (simp_all add: diff_def)

lemma gains_nth:
  "j < length cs \<Longrightarrow>
     gains (diff cs) ! j = (if j = 0 then 0 else if cs ! j - cs ! (j - 1) > 0 then cs ! j - cs ! (j - 1) else 0)"
  by (cases "j = 0") (simp_all add: gains_def diff_nth diff_0)

lemma losses_nth:
  "j < length cs \<Longrightarrow>
     losses (diff cs) ! j = (if j = 0 then 0 else if cs ! j - cs ! (j - 1) < 0 then - (cs ! j - cs ! (j - 1)) else 0)"
  by (cases "j = 0") (simp_all add: losses_def diff_nth diff_0)

lemma mean_zero_iff:
  assumes "w \<noteq> []" "\<And>x. x \<in> set w \<Longrightarrow> 0 \<le> x"
  shows "mean w = 0 \<longleftrightarrow> (\<forall>x\<in>set w. x = 0)"
  using assms by (simp add: mean_def sum_list_nonneg_eq_0_iff)

lemma mean_loss_zero_iff:
  assumes "1 \<le> p" "p \<le> i + 1" "i < length cs"
  shows "mean (window_at p (losses (diff cs)) i) = 0 \<longleftrightarrow>
           (\<forall>j. i + 1 - p \<le> j \<and> j \<le> i \<and> 0 < j \<longrightarrow> cs ! (j - 1) \<le> cs ! j)"
proof -
  have ne: "window_at p (losses (diff cs)) i \<noteq> []"
    using window_at_length [of p i "losses (diff cs)"] assms by auto
  have "mean (window_at p (losses (diff cs)) i) = 0 \<longleftrightarrow>
          (\<forall>x\<in>set (window_at p (losses (diff cs)) i). x = 0)"
    using window_at_subset [of p "losses (diff cs)" i]
    by (intro mean_zero_iff [OF ne]) (auto dest: losses_nonneg)
  also have "\<dots> \<longleftrightarrow> (\<forall>j. i + 1 - p \<le> j \<and> j \<le> i \<longrightarrow> losses (diff cs) ! j = 0)"
    using assms by (auto simp: window_set)
  also have "\<dots> \<longleftrightarrow> (\<forall>j. i + 1 - p \<le> j \<and> j \<le> i \<and> 0 < j \<longrightarrow> cs ! (j - 1) \<le> cs ! j)"
    using assms(3) by (auto simp: losses_nth) (metis le_less_trans not_le)+
  finally show ?thesis .
qed

lemma mean_gain_zero_iff:
  assumes "1 \<le> p" "p \<le> i + 1" "i < length cs"
  shows "mean (window_at p (gains (diff cs)) i) = 0 \<longleftrightarrow>
           (\<forall>j. i + 1 - p \<le> j \<and> j \<le> i \<and> 0 < j \<longrightarrow> cs ! j \<le> cs ! (j - 1))"
proof -
  have ne: "window_at p (gains (diff cs)) i \<noteq> []"
    using window_at_length [of p i "gains (diff cs)"] assms by auto
  have "mean (window_at p (gains (diff cs)) i) = 0 \<longleftrightarrow>
          (\<forall>x\<in>set (window_at p (gains (diff cs)) i). x = 0)"
    using window_at_subset [of p "gains (diff cs)" i]
    by (intro mean_zero_iff [OF ne]) (auto dest: gains_nonneg)
  also have "\<dots> \<longleftrightarrow> (\<forall>j. i + 1 - p \<le> j \<and> j \<le> i \<longrightarrow> gains (diff cs) ! j = 0)"
    using assms by (auto simp: window_set)
  also have "\<dots> \<longleftrightarrow> (\<forall>j. i + 1 - p \<le> j \<and> j \<le> i \<and> 0 < j \<longrightarrow> cs ! j \<le> cs ! (j - 1))"
    using assms(3) by (auto simp: gains_nth) (metis le_less_trans not_le)+
  finally show ?thesis .
qed

text \<open>
  Claim C9. Where the rolling average of the losses is exactly 0 (so the window is full):
  a positive average gain gives an RSI of exactly 100; an average gain of 0 gives NaN,
  and the RSI rule of the aggregator leaves its state unchanged on that value. The average
  gain is 0 there exactly when all closes compared in the window are equal.
\<close>

theorem rsi_zero_average_loss:
  assumes "data a = Some df" "i < length (candles df)"
    "rolling_mean period (losses (diff (closes df))) ! i = Fin 0"
  shows "\<exists>rs a'. calculate_rsi period a = (Some rs, a') \<and>
     (\<forall>g. rolling_mean period (gains (diff (closes df))) ! i = Fin g \<and> 0 < g \<longrightarrow>
        rs ! i = Fin 100) \<and>
     (rolling_mean period (gains (diff (closes df))) ! i = Fin 0 \<longrightarrow>
        rs ! i = NaN \<and> rsi_rule (rs ! i) st = st) \<and>
     (rolling_mean period (gains (diff (closes df))) ! i = Fin 0 \<longleftrightarrow>
        (\<forall>j. i + 1 - period \<le> j \<and> j \<le> i \<and> 0 < j \<longrightarrow> closes df ! j = closes df ! (j - 1)))"
proof -
  let ?cs = "closes df"
  let ?g = "mean (window_at period (gains (diff ?cs)) i)"
  let ?l = "mean (window_at period (losses (diff ?cs)) i)"
  have n: "i < length ?cs" using assms(2) by (simp add: closes_def)
  have full: "1 \<le> period" "period \<le> i + 1" and l0: "?l = 0"
    using assms(3) n by (auto simp: rolling_mean_nth split: if_splits)
  have gv: "rolling_mean period (gains (diff ?cs)) ! i = Fin ?g"
    using n full by (simp add: rolling_mean_nth)
  have v: "rsi_series period ?cs ! i = rsi_of (Fin ?g) (Fin 0)"
    using n full l0 by (simp add: rsi_series_value)
  have g: "0 \<le> ?g" by (rule mean_gain_nonneg)
  have 1: "rsi_series period ?cs ! i = Fin 100" if "0 < ?g"
    using v that by (simp add: rsi_of_Fin)
  have 2: "rsi_series period ?cs ! i = NaN" if "?g = 0"
    using v that by (simp add: rsi_of_Fin)
  have 3: "?g = 0 \<longleftrightarrow> (\<forall>j. i + 1 - period \<le> j \<and> j \<le> i \<and> 0 < j \<longrightarrow> ?cs ! j = ?cs ! (j - 1))"
    using l0 mean_gain_zero_iff [OF full n] mean_loss_zero_iff [OF full n]
    by (metis order_antisym order_refl)
  have c: "calculate_rsi period a =
     (Some (rsi_series period ?cs), a\<lparr>data := Some (df\<lparr>rsi := Some (rsi_series period ?cs)\<rparr>)\<rparr>)"
    by (simp add: calculate_rsi_def assms(1))
  have r: "rsi_rule NaN st = st" by (simp add: rsi_rule_def)
  show ?thesis
    apply (intro exI conjI)
       apply (rule c)
    using gv 1 2 3 r by simp_all
qed

theorem rsi_zero_average_loss_witness:
  "rsi_series 3 (closes (the (data ten_candles))) ! 5 = Fin 100 \<and>
   rsi_series 14 (closes (the (data nineteen))) ! 15 = NaN \<and>
   rsi_rule (rsi_series 14 (closes (the (data nineteen))) ! 15) ([], 0) = ([], 0)"
proof -
  let ?d10 = "raw_frame (map (\<lambda>t. example_candle t (100 + real t)) [0..<10])"
  let ?d19 = "(raw_frame (map (\<lambda>t. example_candle t 100) [0..<19]))\<lparr>rsi := Some (replicate 19 (Fin 50))\<rparr>"
  have a: "data ten_candles = Some ?d10" "5 < length (candles ?d10)"
    "rolling_mean 3 (losses (diff (closes ?d10))) ! 5 = Fin 0"
    "rolling_mean 3 (gains (diff (closes ?d10))) ! 5 = Fin 1"
    by code_simp+
  have b: "data nineteen = Some ?d19" "15 < length (candles ?d19)"
    "rolling_mean 14 (losses (diff (closes ?d19))) ! 15 = Fin 0"
    "rolling_mean 14 (gains (diff (closes ?d19))) ! 15 = Fin 0"
    by code_simp+
  have c10: "calculate_rsi 3 ten_candles =
     (Some (rsi_series 3 (closes ?d10)), ten_candles\<lparr>data := Some (?d10\<lparr>rsi := Some (rsi_series 3 (closes ?d10))\<rparr>)\<rparr>)"
    by (simp add: calculate_rsi_def a(1))
  have c19: "calculate_rsi 14 nineteen =
     (Some (rsi_series 14 (closes ?d19)), nineteen\<lparr>data := Some (?d19\<lparr>rsi := Some (rsi_series 14 (closes ?d19))\<rparr>)\<rparr>)"
    by (simp add: calculate_rsi_def b(1))
  from rsi_zero_average_loss [OF a(1-3), of "([], 0)"] rsi_zero_average_loss [OF b(1-3), of "([], 0)"]
  show ?thesis
    unfolding c10 c19 using a(1,4) b(1,4) by auto
qed

section \<open>Bollinger bands\<close>

lemma sample_std_nonneg: "2 \<le> length w \<Longrightarrow> 0 \<le> sample_std w"
proof -
  assume "2 \<le> length w"
  then have d: "0 \<le> real (length w) - 1" by simp
  have "0 \<le> x" if "x \<in> set (map (\<lambda>x. (x - mean w) * (x - mean w)) w)" for x
    using that by auto
  then have "0 \<le> sum_list (map (\<lambda>x. (x - mean w) * (x - mean w)) w)"
    by (rule sum_list_nonneg)
  then show ?thesis unfolding sample_std_def using d by simp
qed

lemma bollinger_result:
  assumes "calculate_bollinger_bands period k a = (Some (up, mid, lo), a')"
  shows "\<exists>df. data a = Some df \<and>
    up = map2 (\<lambda>m s. fadd m (fmul s (Fin k))) (rolling_mean period (closes df)) (rolling_std period (closes df)) \<and>
    mid = rolling_mean period (closes df) \<and>
    lo = map2 (\<lambda>m s. fsub m (fmul s (Fin k))) (rolling_mean period (closes df)) (rolling_std period (closes df))"
proof (cases "data a")
  case None
  then have "calculate_bollinger_bands period k a = (None, a)"
    by (simp add: calculate_bollinger_bands_def)
  with assms show ?thesis by simp
next
  case (Some df)
  then have "fst (calculate_bollinger_bands period k a) =
    Some (map2 (\<lambda>m s. fadd m (fmul s (Fin k))) (rolling_mean period (closes df)) (rolling_std period (closes df)),
          rolling_mean period (closes df),
          map2 (\<lambda>m s. fsub m (fmul s (Fin k))) (rolling_mean period (closes df)) (rolling_std period (closes df)))"
    by (simp add: calculate_bollinger_bands_def Let_def)
  with assms Some show ?thesis by simp
qed

text \<open>
  Claim C7. Wherever the three Bollinger values of \<open>calculate_bollinger_bands\<close> are all
  defined (which needs a period of at least 2 and a full window, so the places from
  \<open>period - 1\<close> on), the middle band is the trailing mean, the upper and lower bands are
  the mean plus and minus the multiplier times the trailing sample standard deviation,
  and upper \<open>\<ge>\<close> middle \<open>\<ge>\<close> lower, for a multiplier that is not negative.
\<close>

theorem bollinger_bands_ordered:
  assumes "calculate_bollinger_bands period k a = (Some (up, mid, lo), a')"
    "0 \<le> k" "i < length up" "up ! i \<noteq> NaN" "mid ! i \<noteq> NaN" "lo ! i \<noteq> NaN"
  shows "fge (up ! i) (mid ! i) \<and> fge (mid ! i) (lo ! i) \<and>
         2 \<le> period \<and> period \<le> i + 1 \<and>
         (\<exists>df m s. data a = Some df \<and> 0 \<le> s \<and>
            m = mean (window_at period (closes df) i) \<and>
            s = sample_std (window_at period (closes df) i) \<and>
            mid ! i = Fin m \<and> up ! i = Fin (m + s * k) \<and> lo ! i = Fin (m - s * k))"
proof -
  from bollinger_result [OF assms(1)] obtain df where df: "data a = Some df"
    and up: "up = map2 (\<lambda>m s. fadd m (fmul s (Fin k))) (rolling_mean period (closes df)) (rolling_std period (closes df))"
    and mid: "mid = rolling_mean period (closes df)"
    and lo: "lo = map2 (\<lambda>m s. fsub m (fmul s (Fin k))) (rolling_mean period (closes df)) (rolling_std period (closes df))"
    by blast
  let ?w = "window_at period (closes df) i"
  have i: "i < length (closes df)" using assms(3) up by simp
  have p: "2 \<le> period" "period \<le> i + 1"
    using assms(4) band_values(1) [OF i, of k period] up by (auto split: if_splits)
  have u: "up ! i = Fin (mean ?w + sample_std ?w * k)"
    using band_values(1) [OF i, of k period] up p by simp
  have l: "lo ! i = Fin (mean ?w - sample_std ?w * k)"
    using band_values(2) [OF i, of k period] lo p by simp
  have m: "mid ! i = Fin (mean ?w)" using mid i p by (simp add: rolling_mean_nth)
  have "length ?w = period" using p i by (simp add: window_at_length)
  then have s: "0 \<le> sample_std ?w" using p by (intro sample_std_nonneg) simp
  then have sk: "0 \<le> sample_std ?w * k" using assms(2) by simp
  have o: "fge (up ! i) (mid ! i)" "fge (mid ! i) (lo ! i)"
    using sk by (auto simp: u l m fge_def fle_def)
  have e: "\<exists>df m s. data a = Some df \<and> 0 \<le> s \<and>
            m = mean (window_at period (closes df) i) \<and>
            s = sample_std (window_at period (closes df) i) \<and>
            mid ! i = Fin m \<and> up ! i = Fin (m + s * k) \<and> lo ! i = Fin (m - s * k)"
    using df s u l m by (intro exI [of _ df] exI [of _ "mean ?w"] exI [of _ "sample_std ?w"]) simp
  from o p e show ?thesis by (intro conjI)
qed

lemma band_defined:
  assumes "i < length cs" "2 \<le> p" "p \<le> i + 1"
  shows "map2 (\<lambda>m s. fadd m (fmul s (Fin k))) (rolling_mean p cs) (rolling_std p cs) ! i \<noteq> NaN \<and>
    rolling_mean p cs ! i \<noteq> NaN \<and>
    map2 (\<lambda>m s. fsub m (fmul s (Fin k))) (rolling_mean p cs) (rolling_std p cs) ! i \<noteq> NaN"
  using assms band_values [OF assms(1), of k p] by (simp add: rolling_mean_nth)

theorem bollinger_bands_ordered_witness:
  "(case calculate_bollinger_bands 3 2 ten_candles of
      (Some (up, mid, lo), a') \<Rightarrow> fge (up ! 5) (mid ! 5) \<and> fge (mid ! 5) (lo ! 5) \<and>
         up ! 5 \<noteq> NaN \<and> mid ! 5 \<noteq> NaN \<and> lo ! 5 \<noteq> NaN
    | _ \<Rightarrow> False)"
proof -
  define df where "df = raw_frame (map (\<lambda>t. example_candle t (100 + real t)) [0..<10])"
  define cs where "cs = closes df"
  define up where "up = map2 (\<lambda>m s. fadd m (fmul s (Fin 2))) (rolling_mean 3 cs) (rolling_std 3 cs)"
  define lo where "lo = map2 (\<lambda>m s. fsub m (fmul s (Fin 2))) (rolling_mean 3 cs) (rolling_std 3 cs)"
  define mid where "mid = rolling_mean 3 cs"
  define a' where "a' = ten_candles\<lparr>data := Some (df\<lparr>bb_upper := Some up,
               bb_middle := Some mid, bb_lower := Some lo\<rparr>)\<rparr>"
  have d: "data ten_candles = Some df" by (simp add: ten_candles_def analyzer_of_def df_def)
  have c: "calculate_bollinger_bands 3 2 ten_candles = (Some (up, mid, lo), a')"
    unfolding calculate_bollinger_bands_def d Let_def up_def lo_def mid_def a'_def cs_def
    by simp
  have n: "length cs = 10" by (simp add: cs_def df_def closes_def raw_frame_def)
  then have i: "5 < length cs" "5 < length up" by (simp_all add: up_def)
  have v: "up ! 5 \<noteq> NaN" "mid ! 5 \<noteq> NaN" "lo ! 5 \<noteq> NaN"
    unfolding up_def mid_def lo_def using band_defined [OF i(1), of 3 2] by simp_all
  have k: "(0::real) \<le> 2" by simp
  from bollinger_bands_ordered [OF c k i(2) v] v show ?thesis
    unfolding c by simp
qed

section \<open>MACD\<close>

lemma length_ewm_from [simp]: "length (ewm_from \<alpha> prev xs) = length xs"
  by (induction xs arbitrary: prev) simp_all

lemma spec_ema_shift:
  "spec_ema n (x # y # ys) (Suc j) =
     spec_ema n (((1 - 2 / (real n + 1)) * x + 2 / (real n + 1) * y) # ys) j"
  by (induction j) (simp_all add: algebra_simps)

lemma ewm_from_spec:
  "i < length ys \<Longrightarrow> ewm_from (2 / (real n + 1)) x ys ! i = spec_ema n (x # ys) (Suc i)"
proof (induction ys arbitrary: x i)
  case Nil
  then show ?case by simp
next
  case (Cons y ys)
  show ?case
  proof (cases i)
    case 0
    then show ?thesis by (simp add: algebra_simps)
  next
    case (Suc i')
    with Cons.prems have "i' < length ys" by simp
    from Cons.IH [OF this] Suc show ?thesis
      by (simp only: ewm_from.simps nth_Cons_Suc spec_ema_shift [of n x y ys "Suc i'"])
  qed
qed

lemma ewm_mean_spec:
  assumes "1 \<le> n"
  shows "\<exists>ys. ewm_mean n xs = Inr ys \<and> length ys = length xs \<and>
           (\<forall>i<length xs. ys ! i = spec_ema n xs i)"
proof (cases xs)
  case Nil
  with assms show ?thesis by (simp add: ewm_mean_def)
next
  case (Cons x rest)
  have "(x # ewm_from (2 / (real n + 1)) x rest) ! i = spec_ema n (x # rest) i"
    if "i < length (x # rest)" for i
    using that by (cases i) (simp_all add: ewm_from_spec)
  with assms Cons show ?thesis by (simp add: ewm_mean_def)
qed

text \<open>
  Claim C8. With spans of at least 1, \<open>calculate_macd\<close> returns three columns as long
  as the table, defined at every place: the MACD is the EMA of the closes with span
  \<open>fast\<close> minus the one with span \<open>slow\<close>, the signal line is the EMA of the MACD with
  span \<open>signal\<close>, and the histogram is exactly the MACD minus the signal line.
\<close>

theorem macd_histogram_exact:
  assumes "data a = Some df" "1 \<le> fast" "1 \<le> slow" "1 \<le> signal" "i < length (candles df)"
  shows "\<exists>m s h a'. calculate_macd fast slow signal a = Inr (Some (m, s, h), a') \<and>
     data a' = Some (df\<lparr>macd := Some m, macd_signal := Some s, macd_histogram := Some h\<rparr>) \<and>
     length m = length (candles df) \<and> length s = length (candles df) \<and>
     length h = length (candles df) \<and>
     h ! i = fsub (m ! i) (s ! i) \<and>
     m ! i = Fin (spec_ema fast (closes df) i - spec_ema slow (closes df) i) \<and>
     s ! i = Fin (spec_ema signal (spec_macd_line fast slow (closes df)) i) \<and>
     h ! i = Fin (spec_ema fast (closes df) i - spec_ema slow (closes df) i -
                  spec_ema signal (spec_macd_line fast slow (closes df)) i)"
proof -
  let ?cs = "closes df"
  have n: "length ?cs = length (candles df)" by (simp add: closes_def)
  from ewm_mean_spec [OF assms(2), of ?cs] obtain e1 where
    e1: "ewm_mean fast ?cs = Inr e1" "length e1 = length ?cs"
      "\<forall>j<length ?cs. e1 ! j = spec_ema fast ?cs j" by blast
  from ewm_mean_spec [OF assms(3), of ?cs] obtain e2 where
    e2: "ewm_mean slow ?cs = Inr e2" "length e2 = length ?cs"
      "\<forall>j<length ?cs. e2 ! j = spec_ema slow ?cs j" by blast
  have ml: "map2 (-) e1 e2 = spec_macd_line fast slow ?cs"
  proof (rule nth_equalityI)
    show "length (map2 (-) e1 e2) = length (spec_macd_line fast slow ?cs)"
      by (simp add: e1(2) e2(2) spec_macd_line_def)
  next
    fix j assume "j < length (map2 (-) e1 e2)"
    then have j: "j < length ?cs" by (simp add: e1(2) e2(2))
    then have "e1 ! j = spec_ema fast ?cs j" "e2 ! j = spec_ema slow ?cs j"
      using e1(3) e2(3) by blast+
    then show "map2 (-) e1 e2 ! j = spec_macd_line fast slow ?cs ! j"
      using j by (simp add: e1(2) e2(2) spec_macd_line_def)
  qed
  have lm: "length (spec_macd_line fast slow ?cs) = length ?cs" by (simp add: spec_macd_line_def)
  from ewm_mean_spec [OF assms(4), of "spec_macd_line fast slow ?cs"] obtain sl where
    sl: "ewm_mean signal (spec_macd_line fast slow ?cs) = Inr sl" "length sl = length ?cs"
      "\<forall>j<length ?cs. sl ! j = spec_ema signal (spec_macd_line fast slow ?cs) j"
    using lm by auto
  let ?m = "map Fin (spec_macd_line fast slow ?cs)"
  let ?s = "map Fin sl"
  let ?h = "map Fin (map2 (-) (spec_macd_line fast slow ?cs) sl)"
  let ?a' = "a\<lparr>data := Some (df\<lparr>macd := Some ?m, macd_signal := Some ?s, macd_histogram := Some ?h\<rparr>)\<rparr>"
  have c: "calculate_macd fast slow signal a = Inr (Some (?m, ?s, ?h), ?a')"
    by (simp only: calculate_macd_def assms(1) option.case e1(1) e2(1) bind_err_simps ml sl(1))
  have i: "i < length ?cs" using assms(5) n by simp
  have mi: "?m ! i = Fin (spec_ema fast ?cs i - spec_ema slow ?cs i)"
    using i by (simp add: spec_macd_line_def)
  have si: "?s ! i = Fin (spec_ema signal (spec_macd_line fast slow ?cs) i)"
    using i sl(2,3) by simp
  have hi: "?h ! i = Fin (spec_ema fast ?cs i - spec_ema slow ?cs i -
                  spec_ema signal (spec_macd_line fast slow ?cs) i)"
    using i sl(2,3) lm by (simp add: spec_macd_line_def)
  have hs: "?h ! i = fsub (?m ! i) (?s ! i)" unfolding mi si hi by (simp add: fsub_def)
  have d: "data ?a' = Some (df\<lparr>macd := Some ?m, macd_signal := Some ?s, macd_histogram := Some ?h\<rparr>)"
    by simp
  have l: "length ?m = length (candles df)" "length ?s = length (candles df)"
    "length ?h = length (candles df)"
    using lm sl(2) n by simp_all
  show ?thesis
    by (intro exI conjI) (rule c d l hs mi si hi)+
qed

theorem macd_histogram_exact_witness:
  "\<exists>m s h a'. calculate_macd 12 26 9 ten_candles = Inr (Some (m, s, h), a') \<and>
     h ! 1 = fsub (m ! 1) (s ! 1) \<and> m ! 1 = Fin (28 / 351) \<and> s ! 1 = Fin (28 / 1755) \<and>
     h ! 1 = Fin (28 / 351 - 28 / 1755)"
proof -
  define df where "df = raw_frame (map (\<lambda>t. example_candle t (100 + real t)) [0..<10])"
  have d: "data ten_candles = Some df" by (simp add: ten_candles_def analyzer_of_def df_def)
  have n: "1 < length (candles df)" by (simp add: df_def raw_frame_def)
  have v: "spec_ema 12 (closes df) 1 - spec_ema 26 (closes df) 1 = 28 / 351"
    "spec_ema 9 (spec_macd_line 12 26 (closes df)) 1 = 28 / 1755"
    unfolding df_def by code_simp+
  have k: "(1::nat) \<le> 12" "(1::nat) \<le> 26" "(1::nat) \<le> 9" by simp_all
  from macd_histogram_exact [OF d k n] obtain m s h a' where
    r: "calculate_macd 12 26 9 ten_candles = Inr (Some (m, s, h), a')"
      "h ! 1 = fsub (m ! 1) (s ! 1)"
      "m ! 1 = Fin (spec_ema 12 (closes df) 1 - spec_ema 26 (closes df) 1)"
      "s ! 1 = Fin (spec_ema 9 (spec_macd_line 12 26 (closes df)) 1)"
      "h ! 1 = Fin (spec_ema 12 (closes df) 1 - spec_ema 26 (closes df) 1 -
                  spec_ema 9 (spec_macd_line 12 26 (closes df)) 1)"
    by blast
  show ?thesis
    by (intro exI conjI) (rule r(1) r(2) r(3) [unfolded v] r(4) [unfolded v] r(5) [unfolded v])+
qed

end
